theory Spec2Isabelle
  imports Complex_Main "HOL-Library.Char_ord" "HOL-Library.List_Lexorder" "HOL-Library.Log_Nat"
begin

section \<open>Fee engine: \<open>src/utils/feeCalculator.js\<close>\<close>

text \<open>
  JavaScript \<open>Date\<close> values are modelled by their time value, the integer number of
  milliseconds since the epoch.  A JavaScript number that carries money is a binary64
  floating-point number and is modelled by its exact rational value; a product of two
  numbers is the exact product rounded to the nearest binary64 number by \<open>to_double\<close>,
  as is the number parsed from a decimal string.  Minute counts and hourly units are
  integers, on which the quotient by 60 has the floor, ceiling and rounding of the exact
  quotient.  A result beyond the largest finite number, \<open>Infinity\<close> in the program, and
  \<open>NaN\<close> are outside the model.  An \<open>Error\<close> carries its message, an
  \<open>AppError\<close> its message, HTTP status and error code.  A \<open>daily_max_rate\<close>
  that is \<open>null\<close> or \<open>undefined\<close> is \<open>None\<close>; a grace period or rounding
  strategy that is \<open>undefined\<close> is \<open>None\<close>, and the destructuring defaults of
  \<open>calculateParkingFee\<close> fill it in.
  The presentation fields \<open>duration_formatted\<close> and \<open>currency\<close> of the result
  are left out.  Of the truthiness tests on the four arguments only the one on the vehicle
  type can fail: a \<open>Date\<close> and a rate card object are truthy, the empty string is not.
\<close>

type_synonym date = int

datatype error =
    JsError string
  | AppError string int string

record rate_card =
  rc_vehicle_type :: string
  hourly_rate :: rat
  daily_max_rate :: "rat option"
  grace_period_minutes :: "int option"
  rounding_strategy :: "string option"

record rate_card_echo =
  echo_hourly_rate :: rat
  echo_daily_max_rate :: "rat option"
  echo_grace_period_minutes :: int
  echo_rounding_strategy :: string

record calculation_details =
  grace_period_applied :: int
  adjusted_minutes :: int
  hourly_units :: int
  base_fee :: rat
  daily_cap_applied :: bool
  final_fee :: rat

record fee_details =
  vehicle_type :: string
  entry_time :: date
  exit_time :: date
  duration_minutes :: int
  rate_card :: rate_card_echo
  calculation_details :: calculation_details
  parking_fee :: rat

text \<open>
  \<open>Math.round\<close> rounds to the nearest integer, a tie going towards plus infinity.
\<close>

definition math_round :: "rat \<Rightarrow> int" where
  "math_round x = \<lfloor>x + 1 / 2\<rfloor>"

text \<open>
  Rounding to binary64, to nearest with ties to even.  \<open>binary_exponent x\<close> is the
  integer \<open>e\<close> with \<open>2^e \<le> x < 2^(e+1)\<close> for positive \<open>x\<close>.  A number has 53
  significant bits, counted from its binary exponent or, for a subnormal number, from the
  least exponent \<open>-1022\<close>; \<open>to_double\<close> rounds to the nearest multiple of the unit in
  the last of these places.  \<open>max_double\<close> is the largest finite number.
\<close>

definition binary_exponent :: "rat \<Rightarrow> int" where
  "binary_exponent x =
     (if 1 \<le> x then bitlen \<lfloor>x\<rfloor> - 1 else - bitlen (\<lceil>1 / x\<rceil> - 1))"

definition round_half_even :: "rat \<Rightarrow> int" where
  "round_half_even x =
     (let f = \<lfloor>x\<rfloor>; d = x - of_int f
      in if d < 1 / 2 then f else if 1 / 2 < d then f + 1 else if even f then f else f + 1)"

definition to_double :: "rat \<Rightarrow> rat" where
  "to_double x =
     (if x = 0 then 0
      else
        let e = max (binary_exponent \<bar>x\<bar>) (- 1022);
            ulp = 2 powi (e - 52)
        in of_int (round_half_even (x / ulp)) * ulp)"

definition max_double :: rat where
  "max_double = 2 ^ 1024 - 2 ^ 971"

text \<open>
  \<open>parseFloat(x.toFixed(2))\<close>: \<open>toFixed\<close> works on the exact value of the number.  It
  takes the absolute value and the integer \<open>n\<close> with \<open>n / 100\<close> nearest to it (the
  larger one on a tie), prints \<open>n / 100\<close> with two decimals and restores the sign; from
  \<open>10^21\<close> on it prints the number itself.  \<open>parseFloat\<close> reads the string as the
  nearest binary64 number.
\<close>

definition toFixed2 :: "rat \<Rightarrow> rat" where
  "toFixed2 x =
     (if 10 ^ 21 \<le> \<bar>x\<bar> then x
      else if x < 0 then to_double (- (of_int \<lfloor>(- x) * 100 + 1 / 2\<rfloor> / 100))
      else to_double (of_int \<lfloor>x * 100 + 1 / 2\<rfloor> / 100))"

definition hourlyUnits :: "string \<Rightarrow> int \<Rightarrow> int" where
  "hourlyUnits strategy adjustedMinutes =
     (if strategy = ''CEILING'' then \<lceil>of_int adjustedMinutes / (60 :: rat)\<rceil>
      else if strategy = ''FLOOR'' then \<lfloor>of_int adjustedMinutes / (60 :: rat)\<rfloor>
      else if strategy = ''ROUND'' then math_round (of_int adjustedMinutes / 60)
      else \<lceil>of_int adjustedMinutes / (60 :: rat)\<rceil>)"

definition calculateParkingFee ::
  "string \<Rightarrow> date \<Rightarrow> date \<Rightarrow> rate_card \<Rightarrow> error + fee_details" where
  "calculateParkingFee vehicleType entryTime exitTime rateCard =
     (if vehicleType = [] then Inl (JsError ''Missing required parameters for fee calculation'')
      else if exitTime \<le> entryTime then Inl (JsError ''Exit time must be after entry time'')
      else
        let grace = (case grace_period_minutes rateCard of None \<Rightarrow> 15 | Some g \<Rightarrow> g);
            strategy = (case rounding_strategy rateCard of None \<Rightarrow> ''CEILING'' | Some s \<Rightarrow> s);
            echo = \<lparr>echo_hourly_rate = hourly_rate rateCard,
                    echo_daily_max_rate = daily_max_rate rateCard,
                    echo_grace_period_minutes = grace,
                    echo_rounding_strategy = strategy\<rparr>;
            durationMs = exitTime - entryTime;
            durationMinutes = durationMs div (1000 * 60)
        in if durationMinutes \<le> grace then
             Inr \<lparr>vehicle_type = vehicleType, entry_time = entryTime, exit_time = exitTime,
                  duration_minutes = durationMinutes, rate_card = echo,
                  calculation_details =
                    \<lparr>grace_period_applied = durationMinutes, adjusted_minutes = 0,
                     hourly_units = 0, base_fee = 0, daily_cap_applied = False,
                     final_fee = 0\<rparr>,
                  parking_fee = 0\<rparr>
           else
             let adjustedMinutes = durationMinutes - grace;
                 units = hourlyUnits strategy adjustedMinutes;
                 baseFee = to_double (of_int units * hourly_rate rateCard);
                 capped = (case daily_max_rate rateCard of
                             None \<Rightarrow> False | Some m \<Rightarrow> baseFee > m);
                 finalFee = toFixed2 (case daily_max_rate rateCard of
                                        None \<Rightarrow> baseFee
                                      | Some m \<Rightarrow> if baseFee > m then m else baseFee)
             in Inr \<lparr>vehicle_type = vehicleType, entry_time = entryTime, exit_time = exitTime,
                     duration_minutes = durationMinutes, rate_card = echo,
                     calculation_details =
                       \<lparr>grace_period_applied = grace, adjusted_minutes = adjustedMinutes,
                        hourly_units = units, base_fee = toFixed2 baseFee,
                        daily_cap_applied = capped, final_fee = finalFee\<rparr>,
                     parking_fee = finalFee\<rparr>)"

section \<open>Allocation policy: \<open>utils/spotAllocator.js\<close>\<close>

text \<open>
  A parking spot document.  The Mongo \<open>_id\<close> is \<open>s_id\<close>; floor and spot numbers are
  integers; spot type and status are the strings the code compares.  A vehicle type that
  happens to name a property inherited by the lookup tables from \<open>Object.prototype\<close> is
  outside the model.
\<close>

record parking_spot =
  s_id :: nat
  floor_number :: int
  spot_number :: int
  spot_type :: string
  status :: string
  current_vehicle_id :: "nat option"

definition getEligibleSpotTypes :: "string \<Rightarrow> error + string list" where
  "getEligibleSpotTypes vehicleType =
     (if vehicleType = ''MOTORCYCLE'' then Inr [''MOTORCYCLE'', ''CAR'', ''BUS'']
      else if vehicleType = ''CAR'' then Inr [''CAR'', ''BUS'']
      else if vehicleType = ''BUS'' then Inr [''BUS'']
      else Inl (JsError (''Invalid vehicle type: '' @ vehicleType)))"

definition getSpotTypePriority :: "string \<Rightarrow> int" where
  "getSpotTypePriority spotType =
     (if spotType = ''MOTORCYCLE'' then 1
      else if spotType = ''CAR'' then 2
      else if spotType = ''BUS'' then 3
      else 999)"

text \<open>
  \<open>Array.prototype.sort\<close> with a comparison function is a stable sort: \<open>a\<close> goes before
  \<open>b\<close> when the comparator is negative, after it when positive, and equal elements keep
  their order.  Stable insertion sort computes that array.
\<close>

fun insert_sorted :: "('a \<Rightarrow> 'a \<Rightarrow> int) \<Rightarrow> 'a \<Rightarrow> 'a list \<Rightarrow> 'a list" where
  "insert_sorted cmp x [] = [x]"
| "insert_sorted cmp x (y # ys) =
     (if cmp x y \<le> 0 then x # y # ys else y # insert_sorted cmp x ys)"

fun array_sort :: "('a \<Rightarrow> 'a \<Rightarrow> int) \<Rightarrow> 'a list \<Rightarrow> 'a list" where
  "array_sort cmp [] = []"
| "array_sort cmp (x # xs) = insert_sorted cmp x (array_sort cmp xs)"

text \<open>The comparison function passed to \<open>sort\<close> in \<open>sortSpotsByPriority\<close>.\<close>

definition compareSpots :: "parking_spot \<Rightarrow> parking_spot \<Rightarrow> int" where
  "compareSpots a b =
     (if floor_number a \<noteq> floor_number b then floor_number a - floor_number b
      else
        let priorityA = getSpotTypePriority (spot_type a);
            priorityB = getSpotTypePriority (spot_type b)
        in if priorityA \<noteq> priorityB then priorityA - priorityB
           else spot_number a - spot_number b)"

definition sortSpotsByPriority :: "parking_spot list \<Rightarrow> parking_spot list" where
  "sortSpotsByPriority spots = array_sort compareSpots spots"

definition selectOptimalSpot :: "string \<Rightarrow> parking_spot list \<Rightarrow> error + parking_spot option" where
  "selectOptimalSpot vehicleType availableSpots =
     (if vehicleType = [] then Inl (JsError ''Invalid parameters for spot allocation'')
      else if availableSpots = [] then Inr None
      else
        case getEligibleSpotTypes vehicleType of
          Inl e \<Rightarrow> Inl e
        | Inr eligibleTypes \<Rightarrow>
            let matchingSpots =
                  filter (\<lambda>spot. spot_type spot \<in> set eligibleTypes \<and> status spot = ''AVAILABLE'')
                    availableSpots
            in if matchingSpots = [] then Inr None
               else
                 case sortSpotsByPriority matchingSpots of
                   [] \<Rightarrow> Inr None
                 | first # _ \<Rightarrow> Inr (Some first))"

text \<open>
  The words of the specification, to compare \<open>selectOptimalSpot\<close> with: the eligible spot
  types of a vehicle type, the candidates among a list of spots, the size priority of a spot
  type, and the order by floor, then priority, then spot number.
\<close>

definition spec_eligible :: "string \<Rightarrow> string set" where
  "spec_eligible vehicleType =
     (if vehicleType = ''MOTORCYCLE'' then {''MOTORCYCLE'', ''CAR'', ''BUS''}
      else if vehicleType = ''CAR'' then {''CAR'', ''BUS''}
      else if vehicleType = ''BUS'' then {''BUS''}
      else {})"

definition spec_candidates :: "string \<Rightarrow> parking_spot list \<Rightarrow> parking_spot set" where
  "spec_candidates vehicleType spots =
     {s \<in> set spots. status s = ''AVAILABLE'' \<and> spot_type s \<in> spec_eligible vehicleType}"

definition spec_priority :: "string \<Rightarrow> int" where
  "spec_priority spotType =
     (if spotType = ''MOTORCYCLE'' then 1 else if spotType = ''CAR'' then 2 else 3)"

definition spec_precedes :: "parking_spot \<Rightarrow> parking_spot \<Rightarrow> bool" where
  "spec_precedes a b \<longleftrightarrow>
     floor_number a < floor_number b
     \<or> (floor_number a = floor_number b
         \<and> (spec_priority (spot_type a) < spec_priority (spot_type b)
            \<or> (spec_priority (spot_type a) = spec_priority (spot_type b)
                \<and> spot_number a \<le> spot_number b)))"

section \<open>Stores: the repositories over the Mongo collections\<close>

text \<open>
  Each collection is the list of its documents in insertion order.  Field names shared by
  several schemas carry a prefix here: \<open>v_\<close> for vehicles, \<open>t_\<close> for parking transactions
  and \<open>l_\<close> for the parking lot.  A fresh \<open>ObjectId\<close> is the next value of a counter.
  \<open>findOne\<close> returns the first matching document and \<open>findByIdAndUpdate\<close> changes the
  first document with the given id.  The operations are modelled on request data that has
  passed the request validators, for which the schema validators of the models always
  succeed; database failures and the \<open>created_at\<close>/\<open>updated_at\<close> stamps are outside the
  model.
\<close>

record vehicle =
  v_id :: nat
  v_license_plate :: string
  v_vehicle_type :: string
  v_owner_name :: "string option"
  v_registration_number :: "string option"
  is_currently_parked :: bool

record parking_transaction =
  t_id :: nat
  t_vehicle_id :: nat
  t_spot_id :: nat
  t_entry_time :: date
  t_exit_time :: "date option"
  t_duration_minutes :: "int option"
  t_parking_fee :: "rat option"
  payment_status :: string
  payment_method :: "string option"

record parking_lot =
  l_id :: nat
  available_motorcycle_spots :: int
  available_car_spots :: int
  available_bus_spots :: int
  occupied_motorcycle_spots :: int
  occupied_car_spots :: int
  occupied_bus_spots :: int

record db =
  vehicles :: "vehicle list"
  spots :: "parking_spot list"
  transactions :: "parking_transaction list"
  lots :: "parking_lot list"
  rate_cards :: "rate_card list"
  next_id :: nat

text \<open>\<open>toUpperCase\<close> and \<open>toLowerCase\<close> on the ASCII letters.\<close>

definition toUpperCase :: "string \<Rightarrow> string" where
  "toUpperCase s =
     map (\<lambda>c. if CHR ''a'' \<le> c \<and> c \<le> CHR ''z'' then char_of (of_char c - (32 :: nat)) else c) s"

definition toLowerCase :: "string \<Rightarrow> string" where
  "toLowerCase s =
     map (\<lambda>c. if CHR ''A'' \<le> c \<and> c \<le> CHR ''Z'' then char_of (of_char c + (32 :: nat)) else c) s"

fun findByIdAndUpdate :: "('a \<Rightarrow> nat) \<Rightarrow> nat \<Rightarrow> ('a \<Rightarrow> 'a) \<Rightarrow> 'a list \<Rightarrow> 'a list" where
  "findByIdAndUpdate idOf i f [] = []"
| "findByIdAndUpdate idOf i f (x # xs) =
     (if idOf x = i then f x # xs else x # findByIdAndUpdate idOf i f xs)"

subsection \<open>\<open>vehicleRepository\<close>\<close>

definition findByLicensePlate :: "string \<Rightarrow> db \<Rightarrow> vehicle option" where
  "findByLicensePlate licensePlate st =
     find (\<lambda>v. v_license_plate v = toUpperCase licensePlate) (vehicles st)"

definition create_vehicle ::
  "string \<Rightarrow> string \<Rightarrow> string option \<Rightarrow> string option \<Rightarrow> bool \<Rightarrow> db \<Rightarrow> vehicle \<times> db" where
  "create_vehicle plate vtype owner registration parked st =
     (let v = \<lparr>v_id = next_id st, v_license_plate = plate, v_vehicle_type = vtype,
                v_owner_name = owner, v_registration_number = registration,
                is_currently_parked = parked\<rparr>
      in (v, st\<lparr>vehicles := vehicles st @ [v], next_id := Suc (next_id st)\<rparr>))"

definition updateParkingStatus :: "nat \<Rightarrow> bool \<Rightarrow> db \<Rightarrow> db" where
  "updateParkingStatus vehicleId isParked st =
     st\<lparr>vehicles :=
          findByIdAndUpdate v_id vehicleId (\<lambda>v. v\<lparr>is_currently_parked := isParked\<rparr>) (vehicles st)\<rparr>"

subsection \<open>\<open>parkingSpotRepository\<close>\<close>

text \<open>
  The sort \<open>{floor_number: 1, spot_type: 1, spot_number: 1}\<close> of \<open>findAvailableByTypes\<close>,
  as a comparison: floors, then the spot type strings, then spot numbers.
\<close>

definition compareFloorTypeNumber :: "parking_spot \<Rightarrow> parking_spot \<Rightarrow> int" where
  "compareFloorTypeNumber a b =
     (if floor_number a \<noteq> floor_number b then (if floor_number a < floor_number b then - 1 else 1)
      else if spot_type a \<noteq> spot_type b then (if spot_type a < spot_type b then - 1 else 1)
      else if spot_number a < spot_number b then - 1
      else if spot_number b < spot_number a then 1
      else 0)"

definition findAvailableByTypes :: "string list \<Rightarrow> db \<Rightarrow> parking_spot list" where
  "findAvailableByTypes spotTypes st =
     array_sort compareFloorTypeNumber
       (filter (\<lambda>s. spot_type s \<in> set spotTypes \<and> status s = ''AVAILABLE'') (spots st))"

definition findSpotById :: "nat \<Rightarrow> db \<Rightarrow> parking_spot option" where
  "findSpotById spotId st = find (\<lambda>s. s_id s = spotId) (spots st)"

text \<open>
  \<open>updateStatus(spotId, status, vehicleId = null)\<close>: the update always sets \<open>status\<close> and
  sets \<open>current_vehicle_id\<close> only when \<open>vehicleId\<close> is not \<open>null\<close>.  It returns the updated
  document, or \<open>null\<close> when no spot has the id.
\<close>

definition updateStatus :: "nat \<Rightarrow> string \<Rightarrow> nat option \<Rightarrow> db \<Rightarrow> parking_spot option \<times> db" where
  "updateStatus spotId newStatus vehicleId st =
     (let updateData =
            (\<lambda>s. case vehicleId of
                    None \<Rightarrow> s\<lparr>status := newStatus\<rparr>
                  | Some vid \<Rightarrow> s\<lparr>status := newStatus, current_vehicle_id := Some vid\<rparr>);
          st' = st\<lparr>spots := findByIdAndUpdate s_id spotId updateData (spots st)\<rparr>
      in (findSpotById spotId st', st'))"

subsection \<open>\<open>transactionRepository\<close>\<close>

definition create_transaction :: "nat \<Rightarrow> nat \<Rightarrow> date \<Rightarrow> db \<Rightarrow> parking_transaction \<times> db" where
  "create_transaction vehicleId spotId entryTime st =
     (let t = \<lparr>t_id = next_id st, t_vehicle_id = vehicleId, t_spot_id = spotId,
                t_entry_time = entryTime, t_exit_time = None, t_duration_minutes = None,
                t_parking_fee = None, payment_status = ''PENDING'', payment_method = None\<rparr>
      in (t, st\<lparr>transactions := transactions st @ [t], next_id := Suc (next_id st)\<rparr>))"

definition findActiveByVehicleId :: "nat \<Rightarrow> db \<Rightarrow> parking_transaction option" where
  "findActiveByVehicleId vehicleId st =
     find (\<lambda>t. t_vehicle_id t = vehicleId \<and> t_exit_time t = None) (transactions st)"

definition updateExit :: "nat \<Rightarrow> date \<Rightarrow> int \<Rightarrow> rat \<Rightarrow> string \<Rightarrow> db \<Rightarrow> db" where
  "updateExit transactionId exitTime durationMinutes fee paymentStatus st =
     st\<lparr>transactions :=
          findByIdAndUpdate t_id transactionId
            (\<lambda>t. t\<lparr>t_exit_time := Some exitTime, t_duration_minutes := Some durationMinutes,
                   t_parking_fee := Some fee, payment_status := paymentStatus\<rparr>)
            (transactions st)\<rparr>"

subsection \<open>\<open>parkingLotRepository\<close> and \<open>rateCardRepository\<close>\<close>

definition findDefault :: "db \<Rightarrow> parking_lot option" where
  "findDefault st = (case lots st of [] \<Rightarrow> None | lot # _ \<Rightarrow> Some lot)"

text \<open>
  \<open>$inc\<close> on the fields \<open>occupied_<type>_spots\<close> and \<open>available_<type>_spots\<close>; a name
  that is no field of the schema is dropped from the update.
\<close>

definition incOccupied :: "string \<Rightarrow> int \<Rightarrow> parking_lot \<Rightarrow> parking_lot" where
  "incOccupied vehicleType d lot =
     (let ty = toLowerCase vehicleType in
      if ty = ''motorcycle'' then
        lot\<lparr>occupied_motorcycle_spots := occupied_motorcycle_spots lot + d,
            available_motorcycle_spots := available_motorcycle_spots lot - d\<rparr>
      else if ty = ''car'' then
        lot\<lparr>occupied_car_spots := occupied_car_spots lot + d,
            available_car_spots := available_car_spots lot - d\<rparr>
      else if ty = ''bus'' then
        lot\<lparr>occupied_bus_spots := occupied_bus_spots lot + d,
            available_bus_spots := available_bus_spots lot - d\<rparr>
      else lot)"

definition incrementOccupiedSpots :: "nat \<Rightarrow> string \<Rightarrow> db \<Rightarrow> db" where
  "incrementOccupiedSpots lotId vehicleType st =
     st\<lparr>lots := findByIdAndUpdate l_id lotId (incOccupied vehicleType 1) (lots st)\<rparr>"

definition decrementOccupiedSpots :: "nat \<Rightarrow> string \<Rightarrow> db \<Rightarrow> db" where
  "decrementOccupiedSpots lotId vehicleType st =
     st\<lparr>lots := findByIdAndUpdate l_id lotId (incOccupied vehicleType (- 1)) (lots st)\<rparr>"

definition findByVehicleType :: "string \<Rightarrow> db \<Rightarrow> rate_card option" where
  "findByVehicleType vehicleType st =
     find (\<lambda>rc. rc_vehicle_type rc = vehicleType) (rate_cards st)"

section \<open>Services: allocation, entry and exit\<close>

subsection \<open>\<open>spotAllocationService.allocateSpot\<close>\<close>

definition allocateSpot :: "string \<Rightarrow> db \<Rightarrow> error + parking_spot option" where
  "allocateSpot vehicleType st =
     (case getEligibleSpotTypes vehicleType of
        Inl e \<Rightarrow> Inl e
      | Inr eligibleTypes \<Rightarrow>
          if eligibleTypes = [] then
            Inl (AppError (''Invalid vehicle type: '' @ vehicleType) 400 ''INVALID_VEHICLE_TYPE'')
          else
            let availableSpots = findAvailableByTypes eligibleTypes st
            in if availableSpots = [] then Inr None
               else selectOptimalSpot vehicleType availableSpots)"

subsection \<open>\<open>feeCalculationService.calculateFee\<close>\<close>

definition calculateFee :: "string \<Rightarrow> date \<Rightarrow> date \<Rightarrow> rate_card \<Rightarrow> error + fee_details" where
  "calculateFee vehicleType entryTime exitTime rateCard =
     (if vehicleType = [] then
        Inl (AppError ''Missing required parameters for fee calculation'' 400 ''BAD_REQUEST'')
      else calculateParkingFee vehicleType entryTime exitTime rateCard)"

subsection \<open>\<open>entryService.processEntry\<close>\<close>

text \<open>
  The request body after validation, the confirmation returned to the controller (without
  its \<open>message\<close>), and the operation itself.  The clock reading of \<open>new Date()\<close> is the
  argument \<open>now\<close>.  The store is returned as it stands when the operation returns or
  throws.
\<close>

record entry_data =
  ed_license_plate :: string
  ed_vehicle_type :: string
  ed_owner_name :: "string option"
  ed_registration_number :: "string option"

record entry_confirmation =
  ec_transaction_id :: nat
  ec_vehicle_id :: nat
  ec_spot_id :: nat
  ec_floor_number :: int
  ec_spot_number :: int
  ec_spot_type :: string
  ec_entry_time :: date

definition processEntry :: "entry_data \<Rightarrow> date \<Rightarrow> db \<Rightarrow> (error + entry_confirmation) \<times> db" where
  "processEntry entryData now st =
     (let existingVehicle = findByLicensePlate (ed_license_plate entryData) st in
      if (case existingVehicle of None \<Rightarrow> False | Some v \<Rightarrow> is_currently_parked v) then
        (Inl (AppError (''Vehicle '' @ ed_license_plate entryData @ '' is already parked in the lot'')
                409 ''VEHICLE_ALREADY_PARKED''), st)
      else
        let (vehicle, st1) =
              (case existingVehicle of
                 Some v \<Rightarrow> (v, st)
               | None \<Rightarrow>
                   create_vehicle (toUpperCase (ed_license_plate entryData))
                     (ed_vehicle_type entryData) (ed_owner_name entryData)
                     (ed_registration_number entryData) False st)
        in case allocateSpot (ed_vehicle_type entryData) st1 of
             Inl e \<Rightarrow> (Inl e, st1)
           | Inr None \<Rightarrow>
               (Inl (AppError (''No available parking spots for vehicle type ''
                                 @ ed_vehicle_type entryData) 409 ''NO_SPOT_AVAILABLE''), st1)
           | Inr (Some allocatedSpot) \<Rightarrow>
               let entryTime = now;
                   (transaction, st2) =
                     create_transaction (v_id vehicle) (s_id allocatedSpot) entryTime st1;
                   st3 = snd (updateStatus (s_id allocatedSpot) ''OCCUPIED'' (Some (v_id vehicle)) st2);
                   st4 = updateParkingStatus (v_id vehicle) True st3;
                   st5 = (case findDefault st4 of
                            None \<Rightarrow> st4
                          | Some lot \<Rightarrow>
                              incrementOccupiedSpots (l_id lot) (ed_vehicle_type entryData) st4)
               in (Inr \<lparr>ec_transaction_id = t_id transaction, ec_vehicle_id = v_id vehicle,
                        ec_spot_id = s_id allocatedSpot,
                        ec_floor_number = floor_number allocatedSpot,
                        ec_spot_number = spot_number allocatedSpot,
                        ec_spot_type = spot_type allocatedSpot,
                        ec_entry_time = entryTime\<rparr>, st5))"

subsection \<open>\<open>exitService.processExit\<close>\<close>

text \<open>
  \<open>exitData\<close> has the single field \<open>license_plate\<close>.  The active transaction comes with
  its spot populated; \<open>spot._id\<close> on a transaction whose spot document is gone is a
  \<open>TypeError\<close>, raised after the transaction has been closed.
\<close>

record exit_confirmation =
  xc_transaction_id :: nat
  xc_vehicle_id :: nat
  xc_spot_id :: nat
  xc_entry_time :: date
  xc_exit_time :: date
  xc_duration_minutes :: int
  xc_parking_fee :: rat
  xc_payment_status :: string

definition processExit :: "string \<Rightarrow> date \<Rightarrow> db \<Rightarrow> (error + exit_confirmation) \<times> db" where
  "processExit license_plate now st =
     (case findByLicensePlate license_plate st of
        None \<Rightarrow>
          (Inl (AppError (''Vehicle '' @ license_plate @ '' not found'') 404 ''VEHICLE_NOT_FOUND''), st)
      | Some vehicle \<Rightarrow>
          if \<not> is_currently_parked vehicle then
            (Inl (AppError (''Vehicle '' @ license_plate @ '' is not currently parked'')
                    409 ''ALREADY_EXITED''), st)
          else
            case findActiveByVehicleId (v_id vehicle) st of
              None \<Rightarrow>
                (Inl (AppError (''No active parking transaction found for vehicle '' @ license_plate)
                        404 ''TRANSACTION_NOT_FOUND''), st)
            | Some transaction \<Rightarrow>
                let exitTime = now in
                case findByVehicleType (v_vehicle_type vehicle) st of
                  None \<Rightarrow>
                    (Inl (AppError (''Rate card not found for vehicle type '' @ v_vehicle_type vehicle)
                            500 ''DATABASE_ERROR''), st)
                | Some rateCard \<Rightarrow>
                    case calculateFee (v_vehicle_type vehicle) (t_entry_time transaction)
                           exitTime rateCard of
                      Inl e \<Rightarrow> (Inl e, st)
                    | Inr feeDetails \<Rightarrow>
                        let st1 = updateExit (t_id transaction) exitTime
                                    (duration_minutes feeDetails) (parking_fee feeDetails)
                                    ''PENDING'' st
                        in case findSpotById (t_spot_id transaction) st of
                             None \<Rightarrow>
                               (Inl (JsError ''TypeError: Cannot read properties of null''), st1)
                           | Some spot \<Rightarrow>
                               let st2 = snd (updateStatus (s_id spot) ''AVAILABLE'' None st1);
                                   st3 = updateParkingStatus (v_id vehicle) False st2;
                                   st4 = (case findDefault st3 of
                                            None \<Rightarrow> st3
                                          | Some lot \<Rightarrow>
                                              decrementOccupiedSpots (l_id lot)
                                                (v_vehicle_type vehicle) st3)
                               in (Inr \<lparr>xc_transaction_id = t_id transaction,
                                        xc_vehicle_id = v_id vehicle,
                                        xc_spot_id = s_id spot,
                                        xc_entry_time = t_entry_time transaction,
                                        xc_exit_time = exitTime,
                                        xc_duration_minutes = duration_minutes feeDetails,
                                        xc_parking_fee = parking_fee feeDetails,
                                        xc_payment_status = ''PENDING''\<rparr>, st4))"

subsection \<open>Reachable stores\<close>

text \<open>
  The stores the system can be in: it starts with provisioned spots, lots and rate cards
  and with no vehicle and no transaction, and then runs entries and exits one after the
  other, each to its end.
\<close>

inductive reachable :: "db \<Rightarrow> bool" where
  initial: "vehicles st = [] \<Longrightarrow> transactions st = [] \<Longrightarrow> reachable st"
| entry: "reachable st \<Longrightarrow> reachable (snd (processEntry entryData now st))"
| exit: "reachable st \<Longrightarrow> reachable (snd (processExit license_plate now st))"

subsection \<open>The ledger invariant\<close>

text \<open>
  What entries and exits maintain between them: document ids are unique and were issued by
  the counter, license plates are unique, every transaction refers to a stored vehicle and
  a stored spot, a vehicle is flagged as parked exactly when it has an open transaction
  (one without exit time), and no vehicle has two open transactions.
\<close>

definition ledger_invariant :: "db \<Rightarrow> bool" where
  "ledger_invariant st \<longleftrightarrow>
     distinct (map v_id (vehicles st))
     \<and> distinct (map v_license_plate (vehicles st))
     \<and> distinct (map t_id (transactions st))
     \<and> (\<forall>v \<in> set (vehicles st). v_id v < next_id st)
     \<and> (\<forall>t \<in> set (transactions st).
           t_id t < next_id st
           \<and> t_vehicle_id t \<in> v_id ` set (vehicles st)
           \<and> t_spot_id t \<in> s_id ` set (spots st))
     \<and> (\<forall>v \<in> set (vehicles st).
           is_currently_parked v
           \<longleftrightarrow> (\<exists>t \<in> set (transactions st). t_vehicle_id t = v_id v \<and> t_exit_time t = None))
     \<and> (\<forall>t \<in> set (transactions st). \<forall>t' \<in> set (transactions st).
           t_exit_time t = None \<and> t_exit_time t' = None \<and> t_vehicle_id t = t_vehicle_id t'
           \<longrightarrow> t = t')"

section \<open>Fixtures\<close>

text \<open>
  A rate card, a floor plan and a store at opening time, used to run the operations on
  concrete inputs.
\<close>

definition card_car :: rate_card where
  "card_car =
     \<lparr>rc_vehicle_type = ''CAR'', hourly_rate = 8, daily_max_rate = Some 50,
      grace_period_minutes = Some 15, rounding_strategy = Some ''CEILING''\<rparr>"

definition floor_plan :: "parking_spot list" where
  "floor_plan =
     [\<lparr>s_id = 1, floor_number = 2, spot_number = 1, spot_type = ''CAR'',
       status = ''AVAILABLE'', current_vehicle_id = None\<rparr>,
      \<lparr>s_id = 2, floor_number = 1, spot_number = 7, spot_type = ''BUS'',
       status = ''AVAILABLE'', current_vehicle_id = None\<rparr>,
      \<lparr>s_id = 3, floor_number = 1, spot_number = 9, spot_type = ''CAR'',
       status = ''AVAILABLE'', current_vehicle_id = None\<rparr>,
      \<lparr>s_id = 4, floor_number = 1, spot_number = 2, spot_type = ''MOTORCYCLE'',
       status = ''AVAILABLE'', current_vehicle_id = None\<rparr>,
      \<lparr>s_id = 5, floor_number = 1, spot_number = 3, spot_type = ''CAR'',
       status = ''OCCUPIED'', current_vehicle_id = Some 8\<rparr>,
      \<lparr>s_id = 6, floor_number = 1, spot_number = 4, spot_type = ''CAR'',
       status = ''MAINTENANCE'', current_vehicle_id = None\<rparr>]"

definition opening_store :: db where
  "opening_store =
     \<lparr>vehicles = [],
      spots =
        [\<lparr>s_id = 1, floor_number = 1, spot_number = 1, spot_type = ''CAR'',
          status = ''AVAILABLE'', current_vehicle_id = None\<rparr>,
         \<lparr>s_id = 2, floor_number = 1, spot_number = 2, spot_type = ''BUS'',
          status = ''MAINTENANCE'', current_vehicle_id = None\<rparr>],
      transactions = [],
      lots =
        [\<lparr>l_id = 1, available_motorcycle_spots = 0, available_car_spots = 1,
          available_bus_spots = 0, occupied_motorcycle_spots = 0, occupied_car_spots = 0,
          occupied_bus_spots = 0\<rparr>],
      rate_cards = [card_car],
      next_id = 100\<rparr>"

definition car_request :: entry_data where
  "car_request =
     \<lparr>ed_license_plate = ''KA01AB1234'', ed_vehicle_type = ''CAR'', ed_owner_name = None,
      ed_registration_number = None\<rparr>"

text \<open>The store after the car has entered at 10:00, and after it has left at 12:35.\<close>

definition parked_store :: db where
  "parked_store = snd (processEntry car_request 36000000 opening_store)"

definition vacated_store :: db where
  "vacated_store = snd (processExit ''KA01AB1234'' 45300000 parked_store)"

section \<open>The fee engine: rounding, grace period, cap and monotonicity\<close>

subsection \<open>Hourly units\<close>

lemma hourlyUnits_ceiling_iff:
  "hourlyUnits ''CEILING'' a = u \<longleftrightarrow> 60 * (u - 1) < a \<and> a \<le> 60 * u"
  unfolding hourlyUnits_def by (simp add: ceiling_eq_iff) (auto simp: field_simps; linarith)

lemma hourlyUnits_floor_iff:
  "hourlyUnits ''FLOOR'' a = u \<longleftrightarrow> 60 * u \<le> a \<and> a < 60 * (u + 1)"
  unfolding hourlyUnits_def by (simp add: floor_eq_iff) (auto simp: field_simps; linarith)

lemma hourlyUnits_round_iff:
  "hourlyUnits ''ROUND'' a = u \<longleftrightarrow> 60 * u - 30 \<le> a \<and> a < 60 * u + 30"
  unfolding hourlyUnits_def math_round_def
  by (simp add: floor_eq_iff) (auto simp: field_simps; linarith)

lemma hourlyUnits_mono: "a \<le> b \<Longrightarrow> hourlyUnits s a \<le> hourlyUnits s b"
  unfolding hourlyUnits_def math_round_def
  by (auto intro!: ceiling_mono floor_mono simp: divide_right_mono)

lemma hourlyUnits_nonneg: "0 \<le> a \<Longrightarrow> 0 \<le> hourlyUnits s a"
  unfolding hourlyUnits_def math_round_def by auto

subsection \<open>Rounding to binary64\<close>

lemma round_half_even_bounds:
  "of_int (round_half_even x) \<le> x + 1 / 2 \<and> x - 1 / 2 \<le> of_int (round_half_even x)"
  unfolding round_half_even_def Let_def by (auto; linarith)

lemma round_half_even_of_int [simp]: "round_half_even (of_int n) = n"
  unfolding round_half_even_def Let_def by simp

lemma round_half_even_mono:
  assumes "x \<le> y"
  shows "round_half_even x \<le> round_half_even y"
proof (cases "\<lfloor>x\<rfloor> = \<lfloor>y\<rfloor>")
  case True
  then show ?thesis using assms unfolding round_half_even_def Let_def by auto
next
  case False
  then have "\<lfloor>x\<rfloor> + 1 \<le> \<lfloor>y\<rfloor>" using assms floor_mono[OF assms] by linarith
  moreover have "round_half_even x \<le> \<lfloor>x\<rfloor> + 1" unfolding round_half_even_def Let_def by auto
  moreover have "\<lfloor>y\<rfloor> \<le> round_half_even y" unfolding round_half_even_def Let_def by auto
  ultimately show ?thesis by linarith
qed

lemma binary_exponent_bounds:
  assumes "0 < x"
  shows "2 powi (binary_exponent x) \<le> x \<and> x < 2 powi (binary_exponent x + 1)"
proof (cases "1 \<le> x")
  case True
  then have pos: "0 < \<lfloor>x\<rfloor>" by linarith
  define b where "b = bitlen \<lfloor>x\<rfloor>"
  have b1: "1 \<le> b" using pos unfolding b_def by (simp add: bitlen_alt_def)
  from bitlen_bounds[OF pos] have lo: "2 ^ nat (b - 1) \<le> \<lfloor>x\<rfloor>" and hi: "\<lfloor>x\<rfloor> < 2 ^ nat b"
    unfolding b_def by auto
  have e: "binary_exponent x = b - 1" using True unfolding binary_exponent_def b_def by simp
  have 1: "(2::rat) ^ nat (b - 1) \<le> x" using lo by (simp add: le_floor_iff)
  have 2: "x < (2::rat) ^ nat b" using hi by (simp add: floor_less_iff)
  show ?thesis unfolding e using 1 2 b1 by (simp add: power_int_def)
next
  case False
  then have x1: "x < 1" by simp
  define y where "y = 1 / x"
  have y1: "1 < y" unfolding y_def using assms x1 by simp
  define c where "c = \<lceil>y\<rceil> - 1"
  have cpos: "0 < c" unfolding c_def using y1 by linarith
  define k where "k = bitlen c"
  have k1: "1 \<le> k" using cpos unfolding k_def by (simp add: bitlen_alt_def)
  from bitlen_bounds[OF cpos] have lo: "2 ^ nat (k - 1) \<le> c" and hi: "c < 2 ^ nat k"
    unfolding k_def by auto
  have e: "binary_exponent x = - k" using False unfolding binary_exponent_def k_def c_def y_def by simp
  have "2 ^ nat (k - 1) < \<lceil>y\<rceil>" using lo unfolding c_def by simp
  then have ylo: "(2::rat) ^ nat (k - 1) < y" by (simp add: less_ceiling_iff)
  have "\<lceil>y\<rceil> \<le> 2 ^ nat k" using hi unfolding c_def by simp
  then have yhi: "y \<le> (2::rat) ^ nat k" by (simp add: ceiling_le_iff)
  have xy: "x = 1 / y" unfolding y_def by simp
  have a: "1 / (2::rat) ^ nat k \<le> x"
    unfolding xy using yhi y1 by (simp add: frac_le)
  have b: "x < 1 / (2::rat) ^ nat (k - 1)"
    unfolding xy using ylo by (simp add: frac_less2)
  have p1: "(2::rat) powi (- k) = 1 / 2 ^ nat k"
    using k1 by (simp add: power_int_def field_simps)
  have p2: "(2::rat) powi (- k + 1) = 1 / 2 ^ nat (k - 1)"
  proof (cases "k = 1")
    case True then show ?thesis by simp
  next
    case False
    then have "- k + 1 < 0" using k1 by simp
    moreover have "nat (- (- k + 1)) = nat (k - 1)" by simp
    ultimately show ?thesis by (simp add: power_int_def field_simps)
  qed
  show ?thesis unfolding e p1 p2 using a b by simp
qed


lemma binary_exponent_mono:
  assumes "0 < x" "x \<le> y"
  shows "binary_exponent x \<le> binary_exponent y"
proof (rule ccontr)
  assume "\<not> binary_exponent x \<le> binary_exponent y"
  then have "binary_exponent y + 1 \<le> binary_exponent x" by simp
  then have "(2::rat) powi (binary_exponent y + 1) \<le> 2 powi (binary_exponent x)"
    by (intro power_int_increasing) simp_all
  moreover have "y < 2 powi (binary_exponent y + 1)"
    using binary_exponent_bounds[of y] assms by simp
  moreover have "2 powi (binary_exponent x) \<le> x"
    using binary_exponent_bounds[OF assms(1)] by simp
  ultimately show False using assms(2) by linarith
qed

lemma to_double_pos_eq:
  assumes "0 < x"
  shows "to_double x =
     of_int (round_half_even (x / 2 powi (max (binary_exponent x) (- 1022) - 52)))
       * 2 powi (max (binary_exponent x) (- 1022) - 52)"
  using assms unfolding to_double_def by (simp add: Let_def)

lemma to_double_nonneg:
  assumes "0 \<le> x"
  shows "0 \<le> to_double x"
proof (cases "x = 0")
  case True
  then show ?thesis by (simp add: to_double_def)
next
  case False
  then have pos: "0 < x" using assms by simp
  define u where "u = (2::rat) powi (max (binary_exponent x) (- 1022) - 52)"
  have upos: "0 < u" unfolding u_def by simp
  have "round_half_even 0 \<le> round_half_even (x / u)"
    using pos upos by (intro round_half_even_mono) simp
  then have "0 \<le> round_half_even (x / u)" using round_half_even_of_int[of 0] by simp
  then show ?thesis unfolding to_double_pos_eq[OF pos] u_def[symmetric] using upos by simp
qed

lemma to_double_upper:
  assumes "0 < x"
  shows "to_double x \<le> 2 powi (max (binary_exponent x) (- 1022) + 1)"
proof -
  define e where "e = max (binary_exponent x) (- 1022)"
  define u where "u = (2::rat) powi (e - 52)"
  have upos: "0 < u" unfolding u_def by simp
  have "x < 2 powi (binary_exponent x + 1)" using binary_exponent_bounds[OF assms] by simp
  also have "\<dots> \<le> 2 powi (e + 1)" unfolding e_def by (intro power_int_increasing) simp_all
  finally have xlt: "x < 2 powi (e + 1)" .
  have split: "(2::rat) powi (e + 1) = 2 ^ 53 * u"
  proof -
    have "e + 1 = 53 + (e - 52)" by simp
    then have "(2::rat) powi (e + 1) = 2 powi (53 + (e - 52))" by (simp only:)
    also have "\<dots> = 2 powi 53 * 2 powi (e - 52)" by (subst power_int_add) simp_all
    finally show ?thesis unfolding u_def by simp
  qed
  have "x / u \<le> of_int (2 ^ 53)" using xlt upos unfolding split by (simp add: field_simps)
  then have "round_half_even (x / u) \<le> round_half_even (of_int (2 ^ 53))"
    by (rule round_half_even_mono)
  then have "round_half_even (x / u) \<le> 2 ^ 53" by (simp only: round_half_even_of_int)
  then have "rat_of_int (round_half_even (x / u)) \<le> rat_of_int (2 ^ 53)" by (simp only: of_int_le_iff)
  then have "rat_of_int (round_half_even (x / u)) * u \<le> rat_of_int (2 ^ 53) * u"
    using upos by (intro mult_right_mono) simp_all
  then show ?thesis
    unfolding to_double_pos_eq[OF assms] e_def[symmetric] u_def[symmetric] split by simp
qed

lemma to_double_lower:
  assumes "0 < x" "- 1022 \<le> binary_exponent x"
  shows "2 powi (binary_exponent x) \<le> to_double x"
proof -
  define e where "e = binary_exponent x"
  define u where "u = (2::rat) powi (e - 52)"
  have emax: "max e (- 1022) = e" using assms(2) unfolding e_def by simp
  have upos: "0 < u" unfolding u_def by simp
  have xge: "2 powi e \<le> x" using binary_exponent_bounds[OF assms(1)] unfolding e_def by simp
  have split: "(2::rat) powi e = 2 ^ 52 * u"
  proof -
    have "e = 52 + (e - 52)" by simp
    then have "(2::rat) powi e = 2 powi (52 + (e - 52))" by (simp only:)
    also have "\<dots> = 2 powi 52 * 2 powi (e - 52)" by (subst power_int_add) simp_all
    finally show ?thesis unfolding u_def by simp
  qed
  have "of_int (2 ^ 52) \<le> x / u" using xge upos unfolding split by (simp add: field_simps)
  then have "round_half_even (of_int (2 ^ 52)) \<le> round_half_even (x / u)"
    by (rule round_half_even_mono)
  then have "2 ^ 52 \<le> round_half_even (x / u)" by (simp only: round_half_even_of_int)
  then have "rat_of_int (2 ^ 52) \<le> rat_of_int (round_half_even (x / u))" by (simp only: of_int_le_iff)
  then have "rat_of_int (2 ^ 52) * u \<le> rat_of_int (round_half_even (x / u)) * u"
    using upos by (intro mult_right_mono) simp_all
  then show ?thesis
    unfolding to_double_pos_eq[OF assms(1)] e_def[symmetric] emax u_def[symmetric] split by simp
qed

lemma to_double_mono:
  assumes "0 \<le> x" "x \<le> y"
  shows "to_double x \<le> to_double y"
proof (cases "x = 0")
  case True
  then show ?thesis using to_double_nonneg[of y] assms by (simp add: to_double_def)
next
  case False
  then have xpos: "0 < x" using assms by simp
  then have ypos: "0 < y" using assms by simp
  define ex where "ex = max (binary_exponent x) (- 1022)"
  define ey where "ey = max (binary_exponent y) (- 1022)"
  have le: "ex \<le> ey" unfolding ex_def ey_def using binary_exponent_mono[OF xpos assms(2)] by simp
  show ?thesis
  proof (cases "ex = ey")
    case True
    define u where "u = (2::rat) powi (ey - 52)"
    have upos: "0 < u" unfolding u_def by simp
    have "round_half_even (x / u) \<le> round_half_even (y / u)"
      using assms(2) upos by (intro round_half_even_mono) (simp add: divide_right_mono)
    then have "rat_of_int (round_half_even (x / u)) * u \<le> rat_of_int (round_half_even (y / u)) * u"
      using upos by (intro mult_right_mono) simp_all
    then show ?thesis
      unfolding to_double_pos_eq[OF xpos] to_double_pos_eq[OF ypos] ex_def[symmetric] ey_def[symmetric]
        True u_def[symmetric] .
  next
    case False
    then have lt: "ex + 1 \<le> ey" using le by simp
    then have "- 1022 < ey" unfolding ex_def by simp
    then have ey: "ey = binary_exponent y" and big: "- 1022 \<le> binary_exponent y"
      unfolding ey_def by simp_all
    have "to_double x \<le> 2 powi (ex + 1)" unfolding ex_def by (rule to_double_upper[OF xpos])
    also have "\<dots> \<le> 2 powi ey" using lt by (intro power_int_increasing) simp_all
    also have "\<dots> \<le> to_double y" unfolding ey by (rule to_double_lower[OF ypos big])
    finally show ?thesis .
  qed
qed

subsection \<open>Currency rounding\<close>

lemma to_double_10_21: "to_double (10 ^ 21) = 10 ^ 21"
  by code_simp

lemma toFixed2_nonneg: "0 \<le> x \<Longrightarrow> 0 \<le> toFixed2 x"
  unfolding toFixed2_def by (auto intro!: to_double_nonneg)

lemma toFixed2_mono:
  assumes "0 \<le> x" "x \<le> y"
  shows "toFixed2 x \<le> toFixed2 y"
proof -
  have y0: "0 \<le> y" using assms by simp
  have fl: "\<lfloor>x * 100 + 1 / 2\<rfloor> \<le> \<lfloor>y * 100 + 1 / 2\<rfloor>"
    using assms by (intro floor_mono) simp
  have n0: "0 \<le> rat_of_int \<lfloor>x * 100 + 1 / 2\<rfloor> / 100"
    using assms(1) by simp
  show ?thesis
  proof (cases "10 ^ 21 \<le> \<bar>y\<bar>")
    case False
    then have xs: "\<not> 10 ^ 21 \<le> \<bar>x\<bar>" using assms by simp
    have "rat_of_int \<lfloor>x * 100 + 1 / 2\<rfloor> / 100 \<le> rat_of_int \<lfloor>y * 100 + 1 / 2\<rfloor> / 100"
      using fl by (simp add: divide_right_mono)
    then have "to_double (rat_of_int \<lfloor>x * 100 + 1 / 2\<rfloor> / 100)
                 \<le> to_double (rat_of_int \<lfloor>y * 100 + 1 / 2\<rfloor> / 100)"
      by (rule to_double_mono[OF n0])
    then show ?thesis using False xs assms y0 unfolding toFixed2_def by simp
  next
    case True
    show ?thesis
    proof (cases "10 ^ 21 \<le> \<bar>x\<bar>")
      case True
      with \<open>10 ^ 21 \<le> \<bar>y\<bar>\<close> assms show ?thesis unfolding toFixed2_def by simp
    next
      case False
      then have xlt: "x < 10 ^ 21" using assms by simp
      have "x * 100 + 1 / 2 < of_int (10 ^ 23) + 1" using xlt by simp
      then have "\<lfloor>x * 100 + 1 / 2\<rfloor> < 10 ^ 23 + 1"
        by (simp add: floor_less_iff)
      then have "\<lfloor>x * 100 + 1 / 2\<rfloor> \<le> 10 ^ 23" by simp
      then have "rat_of_int \<lfloor>x * 100 + 1 / 2\<rfloor> \<le> rat_of_int (10 ^ 23)"
        by (simp only: of_int_le_iff)
      then have "rat_of_int \<lfloor>x * 100 + 1 / 2\<rfloor> / 100 \<le> 10 ^ 21" by simp
      then have "to_double (rat_of_int \<lfloor>x * 100 + 1 / 2\<rfloor> / 100) \<le> to_double (10 ^ 21)"
        by (rule to_double_mono[OF n0])
      then have a: "to_double (rat_of_int \<lfloor>x * 100 + 1 / 2\<rfloor> / 100) \<le> 10 ^ 21"
        unfolding to_double_10_21 .
      have b: "10 ^ 21 \<le> y" using True y0 by simp
      have tx: "toFixed2 x = to_double (rat_of_int \<lfloor>x * 100 + 1 / 2\<rfloor> / 100)"
        using False assms unfolding toFixed2_def by simp
      have ty: "toFixed2 y = y" using True unfolding toFixed2_def by simp
      show ?thesis unfolding tx ty using a b by (rule order_trans)
    qed
  qed
qed

text \<open>
  Below \<open>10^21\<close> the result is the number nearest to a whole number of cents, and these
  cents are at most half a cent away from the argument.
\<close>

lemma toFixed2_cents:
  assumes "\<bar>x\<bar> < 10 ^ 21"
  shows "\<exists>n :: int. toFixed2 x = to_double (of_int n / 100) \<and> \<bar>of_int n / 100 - x\<bar> \<le> 1 / 200"
proof -
  have pos: "\<bar>of_int \<lfloor>z * 100 + 1 / 2\<rfloor> / 100 - z\<bar> \<le> 1 / 200" for z :: rat
  proof -
    define n where "n = \<lfloor>z * 100 + 1 / 2\<rfloor>"
    have "rat_of_int n \<le> z * 100 + 1 / 2" unfolding n_def by (rule of_int_floor_le)
    moreover have "z * 100 + 1 / 2 < rat_of_int n + 1" unfolding n_def by linarith
    ultimately have "\<bar>rat_of_int n / 100 - z\<bar> \<le> 1 / 200" by linarith
    then show ?thesis unfolding n_def .
  qed
  show ?thesis
  proof (cases "x < 0")
    case True
    define n where "n = - \<lfloor>(- x) * 100 + 1 / 2\<rfloor>"
    have eq: "rat_of_int n / 100 = - (rat_of_int \<lfloor>(- x) * 100 + 1 / 2\<rfloor> / 100)"
      unfolding n_def by simp
    have "toFixed2 x = to_double (- (rat_of_int \<lfloor>(- x) * 100 + 1 / 2\<rfloor> / 100))"
      using True assms unfolding toFixed2_def by simp
    then have "toFixed2 x = to_double (rat_of_int n / 100)" unfolding eq .
    moreover have "\<bar>- (rat_of_int \<lfloor>(- x) * 100 + 1 / 2\<rfloor> / 100) - x\<bar> \<le> 1 / 200"
      using pos[of "- x"] by linarith
    then have "\<bar>rat_of_int n / 100 - x\<bar> \<le> 1 / 200" unfolding eq .
    ultimately show ?thesis by blast
  next
    case False
    have "toFixed2 x = to_double (of_int \<lfloor>x * 100 + 1 / 2\<rfloor> / 100)"
      using False assms unfolding toFixed2_def by simp
    moreover have "\<bar>of_int \<lfloor>x * 100 + 1 / 2\<rfloor> / 100 - x\<bar> \<le> 1 / 200"
      by (rule pos)
    ultimately show ?thesis by blast
  qed
qed

subsection \<open>The two return paths of \<open>calculateParkingFee\<close>\<close>

lemma calc_within_grace:
  assumes "vehicleType \<noteq> []" "entryTime < exitTime"
    and "(exitTime - entryTime) div 60000 \<le> (case grace_period_minutes rateCard of None \<Rightarrow> 15 | Some g \<Rightarrow> g)"
  shows "calculateParkingFee vehicleType entryTime exitTime rateCard =
     Inr \<lparr>vehicle_type = vehicleType, entry_time = entryTime, exit_time = exitTime,
          duration_minutes = (exitTime - entryTime) div 60000,
          rate_card = \<lparr>echo_hourly_rate = hourly_rate rateCard,
                    echo_daily_max_rate = daily_max_rate rateCard,
                    echo_grace_period_minutes = (case grace_period_minutes rateCard of None \<Rightarrow> 15 | Some g \<Rightarrow> g),
                    echo_rounding_strategy = (case rounding_strategy rateCard of None \<Rightarrow> ''CEILING'' | Some s \<Rightarrow> s)\<rparr>,
          calculation_details =
            \<lparr>grace_period_applied = (exitTime - entryTime) div 60000, adjusted_minutes = 0,
             hourly_units = 0, base_fee = 0, daily_cap_applied = False, final_fee = 0\<rparr>,
          parking_fee = 0\<rparr>"
  using assms unfolding calculateParkingFee_def by (simp add: Let_def)

lemma calc_past_grace:
  assumes "vehicleType \<noteq> []" "entryTime < exitTime"
    and "(case grace_period_minutes rateCard of None \<Rightarrow> 15 | Some g \<Rightarrow> g) < (exitTime - entryTime) div 60000"
  shows "\<exists>r. calculateParkingFee vehicleType entryTime exitTime rateCard = Inr r
     \<and> duration_minutes r = (exitTime - entryTime) div 60000
     \<and> adjusted_minutes (calculation_details r) =
         (exitTime - entryTime) div 60000 - (case grace_period_minutes rateCard of None \<Rightarrow> 15 | Some g \<Rightarrow> g)
     \<and> hourly_units (calculation_details r) =
         hourlyUnits (case rounding_strategy rateCard of None \<Rightarrow> ''CEILING'' | Some s \<Rightarrow> s)
           (adjusted_minutes (calculation_details r))
     \<and> daily_cap_applied (calculation_details r) =
         (case daily_max_rate rateCard of None \<Rightarrow> False
          | Some m \<Rightarrow> to_double (of_int (hourly_units (calculation_details r)) * hourly_rate rateCard) > m)
     \<and> base_fee (calculation_details r) =
         toFixed2 (to_double (of_int (hourly_units (calculation_details r)) * hourly_rate rateCard))
     \<and> final_fee (calculation_details r) = parking_fee r
     \<and> parking_fee r =
         toFixed2 (case daily_max_rate rateCard of
                     None \<Rightarrow> to_double (of_int (hourly_units (calculation_details r)) * hourly_rate rateCard)
                   | Some m \<Rightarrow>
                       if to_double (of_int (hourly_units (calculation_details r)) * hourly_rate rateCard) > m
                       then m
                       else to_double (of_int (hourly_units (calculation_details r)) * hourly_rate rateCard))"
  using assms unfolding calculateParkingFee_def by (simp add: Let_def split: option.split)

subsection \<open>Claims about the fee engine\<close>

text \<open>
  Claim C2.  A car entering at 10:00 and leaving at 12:35 the same day (155 minutes later),
  under the rate card with hourly rate 8.00, daily maximum 50.00, 15 minutes of grace and
  CEILING rounding, is billed for 140 adjusted minutes, that is 3 hourly units: the parking
  fee is 24.00 and the daily cap is not applied.  The entry time \<open>e\<close> is any instant.
\<close>

theorem fee_example_car_155_minutes:
  "calculateParkingFee ''CAR'' e (e + 9300000)
     \<lparr>rc_vehicle_type = ''CAR'', hourly_rate = 8, daily_max_rate = Some 50,
      grace_period_minutes = Some 15, rounding_strategy = Some ''CEILING''\<rparr>
   = Inr \<lparr>vehicle_type = ''CAR'', entry_time = e, exit_time = e + 9300000,
          duration_minutes = 155,
          rate_card = \<lparr>echo_hourly_rate = 8, echo_daily_max_rate = Some 50,
                       echo_grace_period_minutes = 15, echo_rounding_strategy = ''CEILING''\<rparr>,
          calculation_details =
            \<lparr>grace_period_applied = 15, adjusted_minutes = 140, hourly_units = 3,
             base_fee = 24, daily_cap_applied = False, final_fee = 24\<rparr>,
          parking_fee = 24\<rparr>"
proof -
  have u: "hourlyUnits ''CEILING'' 140 = 3" by (simp add: hourlyUnits_ceiling_iff)
  have b: "to_double 24 = 24" by code_simp
  have f: "toFixed2 24 = 24" by code_simp
  show ?thesis
    unfolding calculateParkingFee_def by (simp add: Let_def u b f)
qed

text \<open>
  Claim C3.  For a valid call (a vehicle type, an exit strictly after the entry), when the
  floored duration in minutes is at most the grace period, \<open>calculateParkingFee\<close> returns
  a parking fee of 0 with 0 hourly units, a base fee of 0 and no daily cap; the calculation
  details are these constants whatever the rate and the rounding strategy, so nothing
  further is computed.
\<close>

theorem grace_period_fee_zero:
  assumes "vehicleType \<noteq> []" and "entryTime < exitTime"
    and "(exitTime - entryTime) div 60000
           \<le> (case grace_period_minutes rateCard of None \<Rightarrow> 15 | Some g \<Rightarrow> g)"
  shows "\<exists>r. calculateParkingFee vehicleType entryTime exitTime rateCard = Inr r
           \<and> parking_fee r = 0
           \<and> duration_minutes r = (exitTime - entryTime) div 60000
           \<and> calculation_details r =
               \<lparr>grace_period_applied = (exitTime - entryTime) div 60000, adjusted_minutes = 0,
                hourly_units = 0, base_fee = 0, daily_cap_applied = False, final_fee = 0\<rparr>"
  using calc_within_grace[OF assms] by simp

theorem grace_period_fee_zero_witness:
  "\<exists>r. calculateParkingFee ''CAR'' 36000000 36600000 card_car = Inr r
       \<and> parking_fee r = 0 \<and> duration_minutes r = 10
       \<and> calculation_details r =
           \<lparr>grace_period_applied = 10, adjusted_minutes = 0,
            hourly_units = 0, base_fee = 0, daily_cap_applied = False, final_fee = 0\<rparr>"
  using grace_period_fee_zero[of "''CAR''" 36000000 36600000 card_car]
  by (simp add: card_car_def)

text \<open>
  Claim C4.  Past the grace period, \<open>adjusted_minutes\<close> is the floored duration minus the
  grace period and \<open>hourly_units\<close> is that number of minutes divided by 60 and rounded by
  the strategy: CEILING gives the least number of whole hours covering the minutes, FLOOR
  the greatest number of whole hours contained in them, ROUND the nearest number of hours
  with the half hour going up.  For 90 adjusted minutes these are 2, 1 and 2 units.
\<close>

theorem hourly_units_rounding:
  assumes "vehicleType \<noteq> []" and "entryTime < exitTime"
    and "(case grace_period_minutes rateCard of None \<Rightarrow> 15 | Some g \<Rightarrow> g)
           < (exitTime - entryTime) div 60000"
  shows "\<exists>r a u. calculateParkingFee vehicleType entryTime exitTime rateCard = Inr r
           \<and> a = adjusted_minutes (calculation_details r)
           \<and> u = hourly_units (calculation_details r)
           \<and> a = (exitTime - entryTime) div 60000
                 - (case grace_period_minutes rateCard of None \<Rightarrow> 15 | Some g \<Rightarrow> g)
           \<and> (rounding_strategy rateCard = Some ''CEILING''
                \<longrightarrow> 60 * (u - 1) < a \<and> a \<le> 60 * u \<and> (a = 90 \<longrightarrow> u = 2))
           \<and> (rounding_strategy rateCard = Some ''FLOOR''
                \<longrightarrow> 60 * u \<le> a \<and> a < 60 * (u + 1) \<and> (a = 90 \<longrightarrow> u = 1))
           \<and> (rounding_strategy rateCard = Some ''ROUND''
                \<longrightarrow> 60 * u - 30 \<le> a \<and> a < 60 * u + 30 \<and> (a = 90 \<longrightarrow> u = 2))"
proof -
  from calc_past_grace[OF assms] obtain r where
    r: "calculateParkingFee vehicleType entryTime exitTime rateCard = Inr r"
    and a: "adjusted_minutes (calculation_details r) =
         (exitTime - entryTime) div 60000 - (case grace_period_minutes rateCard of None \<Rightarrow> 15 | Some g \<Rightarrow> g)"
    and u: "hourly_units (calculation_details r) =
         hourlyUnits (case rounding_strategy rateCard of None \<Rightarrow> ''CEILING'' | Some s \<Rightarrow> s)
           (adjusted_minutes (calculation_details r))"
    by blast
  define av where "av = adjusted_minutes (calculation_details r)"
  define uv where "uv = hourly_units (calculation_details r)"
  have c: "60 * (uv - 1) < av \<and> av \<le> 60 * uv \<and> (av = 90 \<longrightarrow> uv = 2)"
    if "rounding_strategy rateCard = Some ''CEILING''"
  proof -
    have "hourlyUnits ''CEILING'' av = uv" using u that unfolding av_def uv_def by simp
    then show ?thesis unfolding hourlyUnits_ceiling_iff by auto
  qed
  have f: "60 * uv \<le> av \<and> av < 60 * (uv + 1) \<and> (av = 90 \<longrightarrow> uv = 1)"
    if "rounding_strategy rateCard = Some ''FLOOR''"
  proof -
    have "hourlyUnits ''FLOOR'' av = uv" using u that unfolding av_def uv_def by simp
    then show ?thesis unfolding hourlyUnits_floor_iff by auto
  qed
  have rd: "60 * uv - 30 \<le> av \<and> av < 60 * uv + 30 \<and> (av = 90 \<longrightarrow> uv = 2)"
    if "rounding_strategy rateCard = Some ''ROUND''"
  proof -
    have "hourlyUnits ''ROUND'' av = uv" using u that unfolding av_def uv_def by simp
    then show ?thesis unfolding hourlyUnits_round_iff by auto
  qed
  show ?thesis
    using r a c f rd unfolding av_def uv_def by blast
qed

theorem hourly_units_rounding_witness:
  "(\<exists>r. calculateParkingFee ''CAR'' 36000000 42300000
           (card_car\<lparr>rounding_strategy := Some ''CEILING''\<rparr>) = Inr r
        \<and> adjusted_minutes (calculation_details r) = 90
        \<and> hourly_units (calculation_details r) = 2)
   \<and> (\<exists>r. calculateParkingFee ''CAR'' 36000000 42300000
           (card_car\<lparr>rounding_strategy := Some ''FLOOR''\<rparr>) = Inr r
        \<and> adjusted_minutes (calculation_details r) = 90
        \<and> hourly_units (calculation_details r) = 1)
   \<and> (\<exists>r. calculateParkingFee ''CAR'' 36000000 42300000
           (card_car\<lparr>rounding_strategy := Some ''ROUND''\<rparr>) = Inr r
        \<and> adjusted_minutes (calculation_details r) = 90
        \<and> hourly_units (calculation_details r) = 2)"
proof (intro conjI)
  show "\<exists>r. calculateParkingFee ''CAR'' 36000000 42300000
           (card_car\<lparr>rounding_strategy := Some ''CEILING''\<rparr>) = Inr r
        \<and> adjusted_minutes (calculation_details r) = 90
        \<and> hourly_units (calculation_details r) = 2"
    using hourly_units_rounding[of "''CAR''" 36000000 42300000
            "card_car\<lparr>rounding_strategy := Some ''CEILING''\<rparr>"]
    by (auto simp: card_car_def)
  show "\<exists>r. calculateParkingFee ''CAR'' 36000000 42300000
           (card_car\<lparr>rounding_strategy := Some ''FLOOR''\<rparr>) = Inr r
        \<and> adjusted_minutes (calculation_details r) = 90
        \<and> hourly_units (calculation_details r) = 1"
    using hourly_units_rounding[of "''CAR''" 36000000 42300000
            "card_car\<lparr>rounding_strategy := Some ''FLOOR''\<rparr>"]
    by (auto simp: card_car_def)
  show "\<exists>r. calculateParkingFee ''CAR'' 36000000 42300000
           (card_car\<lparr>rounding_strategy := Some ''ROUND''\<rparr>) = Inr r
        \<and> adjusted_minutes (calculation_details r) = 90
        \<and> hourly_units (calculation_details r) = 2"
    using hourly_units_rounding[of "''CAR''" 36000000 42300000
            "card_car\<lparr>rounding_strategy := Some ''ROUND''\<rparr>"]
    by (auto simp: card_car_def)
qed

text \<open>
  Claim C5, as the code has it.  Past the grace period, let \<open>baseFee\<close> be the product of
  the hourly units and the hourly rate as the program computes it, in binary64 and within
  the range of finite numbers, and let \<open>finalFee\<close> be the daily maximum when one is
  present and \<open>baseFee\<close> exceeds it, and \<open>baseFee\<close> otherwise.  Then
  \<open>daily_cap_applied\<close> is true exactly in the first case, and what is returned is
  rounded to two decimal places: \<open>final_fee\<close> and \<open>parking_fee\<close> are both \<open>finalFee\<close>
  rounded, and \<open>base_fee\<close> is \<open>baseFee\<close> rounded.  Rounded means: the number nearest
  to a whole number of cents that is at most half a cent away.
\<close>

theorem daily_cap_and_rounding:
  assumes "vehicleType \<noteq> []" and "entryTime < exitTime"
    and "(case grace_period_minutes rateCard of None \<Rightarrow> 15 | Some g \<Rightarrow> g)
           < (exitTime - entryTime) div 60000"
  shows "\<exists>r. calculateParkingFee vehicleType entryTime exitTime rateCard = Inr r
           \<and> (\<bar>of_int (hourly_units (calculation_details r)) * hourly_rate rateCard\<bar> \<le> max_double
                \<longrightarrow>
                (let baseFee = to_double (of_int (hourly_units (calculation_details r))
                                            * hourly_rate rateCard);
                     finalFee = (case daily_max_rate rateCard of
                                   None \<Rightarrow> baseFee
                                 | Some m \<Rightarrow> if baseFee > m then m else baseFee)
                 in (daily_cap_applied (calculation_details r)
                       \<longleftrightarrow> (\<exists>m. daily_max_rate rateCard = Some m \<and> baseFee > m))
                    \<and> final_fee (calculation_details r) = toFixed2 finalFee
                    \<and> parking_fee r = toFixed2 finalFee
                    \<and> base_fee (calculation_details r) = toFixed2 baseFee
                    \<and> (\<bar>finalFee\<bar> < 10 ^ 21 \<longrightarrow>
                          (\<exists>n :: int. parking_fee r = to_double (of_int n / 100)
                                       \<and> \<bar>of_int n / 100 - finalFee\<bar> \<le> 1 / 200))))"
proof -
  from calc_past_grace[OF assms] obtain r where
    r: "calculateParkingFee vehicleType entryTime exitTime rateCard = Inr r"
    and cap: "daily_cap_applied (calculation_details r) =
         (case daily_max_rate rateCard of None \<Rightarrow> False
          | Some m \<Rightarrow> to_double (of_int (hourly_units (calculation_details r)) * hourly_rate rateCard) > m)"
    and base: "base_fee (calculation_details r) =
         toFixed2 (to_double (of_int (hourly_units (calculation_details r)) * hourly_rate rateCard))"
    and fin: "final_fee (calculation_details r) = parking_fee r"
    and fee: "parking_fee r =
         toFixed2 (case daily_max_rate rateCard of
                     None \<Rightarrow> to_double (of_int (hourly_units (calculation_details r)) * hourly_rate rateCard)
                   | Some m \<Rightarrow>
                       if to_double (of_int (hourly_units (calculation_details r)) * hourly_rate rateCard) > m
                       then m
                       else to_double (of_int (hourly_units (calculation_details r)) * hourly_rate rateCard))"
    by blast
  define baseFee where
    "baseFee = to_double (of_int (hourly_units (calculation_details r)) * hourly_rate rateCard)"
  define finalFee where "finalFee =
    (case daily_max_rate rateCard of None \<Rightarrow> baseFee | Some m \<Rightarrow> if baseFee > m then m else baseFee)"
  have 1: "daily_cap_applied (calculation_details r)
             \<longleftrightarrow> (\<exists>m. daily_max_rate rateCard = Some m \<and> baseFee > m)"
    using cap unfolding baseFee_def by (simp split: option.split)
  have 2: "parking_fee r = toFixed2 finalFee"
    using fee unfolding finalFee_def baseFee_def .
  have 3: "final_fee (calculation_details r) = toFixed2 finalFee"
    using fin 2 by simp
  have 4: "base_fee (calculation_details r) = toFixed2 baseFee"
    using base unfolding baseFee_def .
  have 5: "\<bar>finalFee\<bar> < 10 ^ 21 \<longrightarrow>
             (\<exists>n :: int. parking_fee r = to_double (of_int n / 100)
                          \<and> \<bar>of_int n / 100 - finalFee\<bar> \<le> 1 / 200)"
    unfolding 2 using toFixed2_cents[of finalFee] by blast
  have "let baseFee = to_double (of_int (hourly_units (calculation_details r)) * hourly_rate rateCard);
            finalFee = (case daily_max_rate rateCard of
                          None \<Rightarrow> baseFee
                        | Some m \<Rightarrow> if baseFee > m then m else baseFee)
        in (daily_cap_applied (calculation_details r)
              \<longleftrightarrow> (\<exists>m. daily_max_rate rateCard = Some m \<and> baseFee > m))
           \<and> final_fee (calculation_details r) = toFixed2 finalFee
           \<and> parking_fee r = toFixed2 finalFee
           \<and> base_fee (calculation_details r) = toFixed2 baseFee
           \<and> (\<bar>finalFee\<bar> < 10 ^ 21 \<longrightarrow>
                 (\<exists>n :: int. parking_fee r = to_double (of_int n / 100)
                              \<and> \<bar>of_int n / 100 - finalFee\<bar> \<le> 1 / 200))"
    unfolding Let_def baseFee_def[symmetric] finalFee_def[symmetric]
    using 1 2 3 4 5 by blast
  with r show ?thesis by blast
qed

text \<open>
  A rate card of 1.10 an hour with a maximum of 3.30 a day, and a stay of 3 hourly units:
  the binary64 product of 3 and 1.10 exceeds 3.30, so the cap applies.
\<close>

theorem daily_cap_and_rounding_witness:
  "\<exists>r. calculateParkingFee ''CAR'' 0 11700000
          \<lparr>rc_vehicle_type = ''CAR'', hourly_rate = to_double (11 / 10),
           daily_max_rate = Some (to_double (33 / 10)), grace_period_minutes = Some 15,
           rounding_strategy = Some ''CEILING''\<rparr> = Inr r
       \<and> hourly_units (calculation_details r) = 3
       \<and> daily_cap_applied (calculation_details r)
       \<and> final_fee (calculation_details r) = to_double (33 / 10)
       \<and> parking_fee r = to_double (33 / 10)
       \<and> base_fee (calculation_details r) = to_double (33 / 10)"
proof -
  let ?card = "\<lparr>rc_vehicle_type = ''CAR'', hourly_rate = to_double (11 / 10),
           daily_max_rate = Some (to_double (33 / 10)), grace_period_minutes = Some 15,
           rounding_strategy = Some ''CEILING''\<rparr>"
  have u: "hourlyUnits ''CEILING'' 180 = 3" by (simp add: hourlyUnits_ceiling_iff)
  have range: "\<bar>3 * to_double (11 / 10)\<bar> \<le> max_double" by code_simp
  have exceeds: "to_double (33 / 10) < to_double (3 * to_double (11 / 10))" by code_simp
  have f1: "toFixed2 (to_double (33 / 10)) = to_double (33 / 10)" by code_simp
  have f2: "toFixed2 (to_double (3 * to_double (11 / 10))) = to_double (33 / 10)"
    by code_simp
  from daily_cap_and_rounding[of "''CAR''" 0 11700000 ?card] obtain r where
    r: "calculateParkingFee ''CAR'' 0 11700000 ?card = Inr r"
    and imp: "\<bar>of_int (hourly_units (calculation_details r)) * hourly_rate ?card\<bar> \<le> max_double
                \<longrightarrow>
                (let baseFee = to_double (of_int (hourly_units (calculation_details r))
                                            * hourly_rate ?card);
                     finalFee = (case daily_max_rate ?card of
                                   None \<Rightarrow> baseFee
                                 | Some m \<Rightarrow> if baseFee > m then m else baseFee)
                 in (daily_cap_applied (calculation_details r)
                       \<longleftrightarrow> (\<exists>m. daily_max_rate ?card = Some m \<and> baseFee > m))
                    \<and> final_fee (calculation_details r) = toFixed2 finalFee
                    \<and> parking_fee r = toFixed2 finalFee
                    \<and> base_fee (calculation_details r) = toFixed2 baseFee
                    \<and> (\<bar>finalFee\<bar> < 10 ^ 21 \<longrightarrow>
                          (\<exists>n :: int. parking_fee r = to_double (of_int n / 100)
                                       \<and> \<bar>of_int n / 100 - finalFee\<bar> \<le> 1 / 200)))"
    by auto
  have hu: "hourly_units (calculation_details r) = 3"
    using r u unfolding calculateParkingFee_def by (auto simp: Let_def)
  have "daily_cap_applied (calculation_details r)
        \<and> final_fee (calculation_details r) = to_double (33 / 10)
        \<and> parking_fee r = to_double (33 / 10)
        \<and> base_fee (calculation_details r) = to_double (33 / 10)"
    using imp range exceeds unfolding hu Let_def by (simp add: f1 f2)
  with r hu show ?thesis by blast
qed

text \<open>
  Claim C5 as stated does not hold for the returned \<open>final_fee\<close>: with a daily maximum
  of 50.3125 and a base fee of 80, the cap applies and the returned \<open>final_fee\<close> is the
  number nearest to 50.31, not the daily maximum.
\<close>

theorem capped_final_fee_is_rounded:
  "calculateParkingFee ''CAR'' 0 36000000
     \<lparr>rc_vehicle_type = ''CAR'', hourly_rate = 8, daily_max_rate = Some (805 / 16),
      grace_period_minutes = Some 15, rounding_strategy = Some ''CEILING''\<rparr>
   = Inr \<lparr>vehicle_type = ''CAR'', entry_time = 0, exit_time = 36000000,
          duration_minutes = 600,
          rate_card = \<lparr>echo_hourly_rate = 8, echo_daily_max_rate = Some (805 / 16),
                       echo_grace_period_minutes = 15, echo_rounding_strategy = ''CEILING''\<rparr>,
          calculation_details =
            \<lparr>grace_period_applied = 15, adjusted_minutes = 585, hourly_units = 10,
             base_fee = 80, daily_cap_applied = True, final_fee = to_double (5031 / 100)\<rparr>,
          parking_fee = to_double (5031 / 100)\<rparr>
   \<and> to_double (5031 / 100) \<noteq> 805 / 16"
  by code_simp

text \<open>
  Claim C10.  For a fixed vehicle type, entry time and rate card (a rate card has a
  non-negative hourly rate and, when present, a non-negative daily maximum), the parking
  fee does not decrease when the exit time grows: for exit times \<open>t1 \<le> t2\<close> after the
  entry, both calls return and the fee for \<open>t1\<close> is at most the fee for \<open>t2\<close>.
\<close>

theorem fee_monotone_in_exit_time:
  assumes "vehicleType \<noteq> []"
    and "0 \<le> hourly_rate rateCard"
    and "\<forall>m. daily_max_rate rateCard = Some m \<longrightarrow> 0 \<le> m"
    and "entryTime < t1" and "t1 \<le> t2"
  shows "\<exists>r1 r2. calculateParkingFee vehicleType entryTime t1 rateCard = Inr r1
           \<and> calculateParkingFee vehicleType entryTime t2 rateCard = Inr r2
           \<and> parking_fee r1 \<le> parking_fee r2"
proof -
  define grace where "grace = (case grace_period_minutes rateCard of None \<Rightarrow> 15 | Some g \<Rightarrow> g)"
  define strategy where "strategy = (case rounding_strategy rateCard of None \<Rightarrow> ''CEILING'' | Some s \<Rightarrow> s)"
  define d1 where "d1 = (t1 - entryTime) div 60000"
  define d2 where "d2 = (t2 - entryTime) div 60000"
  define final where "final = (\<lambda>u :: int. case daily_max_rate rateCard of
      None \<Rightarrow> to_double (of_int u * hourly_rate rateCard)
    | Some m \<Rightarrow> if to_double (of_int u * hourly_rate rateCard) > m then m
               else to_double (of_int u * hourly_rate rateCard))"
  have lt2: "entryTime < t2" using assms by simp
  have d12: "d1 \<le> d2" unfolding d1_def d2_def using assms(5) by (intro zdiv_mono1) simp_all
  have final_mono: "final u \<le> final v" if "0 \<le> u" "u \<le> v" for u v
  proof -
    have "of_int u * hourly_rate rateCard \<le> of_int v * hourly_rate rateCard"
      using that assms(2) by (simp add: mult_right_mono)
    moreover have "0 \<le> of_int u * hourly_rate rateCard"
      using that(1) assms(2) by simp
    ultimately have "to_double (of_int u * hourly_rate rateCard)
                       \<le> to_double (of_int v * hourly_rate rateCard)"
      by (intro to_double_mono)
    then show ?thesis unfolding final_def by (auto split: option.split)
  qed
  have final_nonneg: "0 \<le> final u" if "0 \<le> u" for u
  proof -
    have "0 \<le> to_double (of_int u * hourly_rate rateCard)"
      using that assms(2) by (intro to_double_nonneg) simp
    then show ?thesis using assms(3) unfolding final_def by (auto split: option.split)
  qed
  have past: "\<exists>r. calculateParkingFee vehicleType entryTime t rateCard = Inr r
        \<and> parking_fee r = toFixed2 (final (hourlyUnits strategy ((t - entryTime) div 60000 - grace)))"
    if "entryTime < t" "grace < (t - entryTime) div 60000" for t
  proof -
    from calc_past_grace[OF assms(1) that(1), of rateCard] that(2) obtain r where
      r: "calculateParkingFee vehicleType entryTime t rateCard = Inr r"
      and a: "adjusted_minutes (calculation_details r) = (t - entryTime) div 60000 - grace"
      and u: "hourly_units (calculation_details r) =
                hourlyUnits strategy (adjusted_minutes (calculation_details r))"
      and p: "parking_fee r =
         toFixed2 (case daily_max_rate rateCard of
                     None \<Rightarrow> to_double (of_int (hourly_units (calculation_details r)) * hourly_rate rateCard)
                   | Some m \<Rightarrow>
                       if to_double (of_int (hourly_units (calculation_details r)) * hourly_rate rateCard) > m
                       then m
                       else to_double (of_int (hourly_units (calculation_details r)) * hourly_rate rateCard))"
      unfolding grace_def strategy_def by blast
    have hu: "hourly_units (calculation_details r) =
                hourlyUnits strategy ((t - entryTime) div 60000 - grace)"
      using u a by simp
    have "parking_fee r = toFixed2 (final (hourlyUnits strategy ((t - entryTime) div 60000 - grace)))"
      using p unfolding hu final_def .
    with r show ?thesis by blast
  qed
  have within: "\<exists>r. calculateParkingFee vehicleType entryTime t rateCard = Inr r \<and> parking_fee r = 0"
    if "entryTime < t" "(t - entryTime) div 60000 \<le> grace" for t
    using calc_within_grace[OF assms(1) that(1), of rateCard] that(2)
    unfolding grace_def by simp
  show ?thesis
  proof (cases "d2 \<le> grace")
    case True
    then have "d1 \<le> grace" using d12 by simp
    from within[OF assms(4)] this within[OF lt2] True
    show ?thesis unfolding d1_def d2_def by fastforce
  next
    case False
    then have g2: "grace < d2" by simp
    from past[OF lt2] g2 obtain r2 where
      r2: "calculateParkingFee vehicleType entryTime t2 rateCard = Inr r2"
      "parking_fee r2 = toFixed2 (final (hourlyUnits strategy (d2 - grace)))"
      unfolding d2_def by blast
    have u2: "0 \<le> hourlyUnits strategy (d2 - grace)"
      using g2 by (intro hourlyUnits_nonneg) simp
    show ?thesis
    proof (cases "d1 \<le> grace")
      case True
      from within[OF assms(4)] True obtain r1 where
        r1: "calculateParkingFee vehicleType entryTime t1 rateCard = Inr r1" "parking_fee r1 = 0"
        unfolding d1_def by blast
      have "0 \<le> parking_fee r2"
        unfolding r2(2) by (intro toFixed2_nonneg final_nonneg u2)
      with r1 r2 show ?thesis by auto
    next
      case False
      then have g1: "grace < d1" by simp
      from past[OF assms(4)] g1 obtain r1 where
        r1: "calculateParkingFee vehicleType entryTime t1 rateCard = Inr r1"
        "parking_fee r1 = toFixed2 (final (hourlyUnits strategy (d1 - grace)))"
        unfolding d1_def by blast
      have u1: "0 \<le> hourlyUnits strategy (d1 - grace)"
        using g1 by (intro hourlyUnits_nonneg) simp
      have "hourlyUnits strategy (d1 - grace) \<le> hourlyUnits strategy (d2 - grace)"
        using d12 by (intro hourlyUnits_mono) simp
      then have "final (hourlyUnits strategy (d1 - grace)) \<le> final (hourlyUnits strategy (d2 - grace))"
        by (rule final_mono[OF u1])
      then have "parking_fee r1 \<le> parking_fee r2"
        unfolding r1(2) r2(2) by (intro toFixed2_mono final_nonneg u1)
      with r1 r2 show ?thesis by auto
    qed
  qed
qed

theorem fee_monotone_in_exit_time_witness:
  "\<exists>r1 r2. calculateParkingFee ''CAR'' 36000000 36600000 card_car = Inr r1
       \<and> calculateParkingFee ''CAR'' 36000000 45300000 card_car = Inr r2
       \<and> parking_fee r1 \<le> parking_fee r2"
  using fee_monotone_in_exit_time[of "''CAR''" card_car 36000000 36600000 45300000]
  by (simp add: card_car_def)

section \<open>The allocation policy selects the least candidate\<close>

lemma insert_sorted_set: "set (insert_sorted cmp x ys) = insert x (set ys)"
  by (induction ys) auto

lemma array_sort_set: "set (array_sort cmp xs) = set xs"
  by (induction xs) (auto simp: insert_sorted_set)

text \<open>The comparison of \<open>sortSpotsByPriority\<close> is a total preorder.\<close>

lemma compareSpots_total: "compareSpots a b \<le> 0 \<or> compareSpots b a \<le> 0"
  unfolding compareSpots_def Let_def by auto

lemma compareSpots_trans:
  "compareSpots a b \<le> 0 \<Longrightarrow> compareSpots b c \<le> 0 \<Longrightarrow> compareSpots a c \<le> 0"
  unfolding compareSpots_def Let_def by (auto split: if_splits)

lemma compareSpots_refl: "compareSpots a a \<le> 0"
  unfolding compareSpots_def Let_def by auto

lemma hd_insert_sorted:
  assumes "ys \<noteq> []"
    and "\<forall>y \<in> set ys. compareSpots (hd ys) y \<le> 0"
    and "z \<in> set (insert_sorted compareSpots x ys)"
  shows "compareSpots (hd (insert_sorted compareSpots x ys)) z \<le> 0"
proof -
  from assms(1) obtain y rest where ys: "ys = y # rest" by (cases ys) auto
  from assms(3) consider "z = x" | "z \<in> set ys" by (auto simp: insert_sorted_set)
  then show ?thesis
  proof cases
    case 1
    then show ?thesis
      using compareSpots_total[of x y] by (auto simp: ys compareSpots_refl)
  next
    case 2
    then have yz: "compareSpots y z \<le> 0" using assms(2) ys by auto
    show ?thesis
    proof (cases "compareSpots x y \<le> 0")
      case True
      then show ?thesis using yz compareSpots_trans[of x y z] by (simp add: ys)
    next
      case False
      then show ?thesis using yz by (simp add: ys)
    qed
  qed
qed

lemma array_sort_hd_least:
  "xs \<noteq> [] \<Longrightarrow> z \<in> set xs \<Longrightarrow> compareSpots (hd (array_sort compareSpots xs)) z \<le> 0"
proof (induction xs arbitrary: z)
  case Nil
  then show ?case by simp
next
  case (Cons x xs)
  show ?case
  proof (cases "xs = []")
    case True
    with Cons.prems show ?thesis by (simp add: compareSpots_refl)
  next
    case False
    have ne: "array_sort compareSpots xs \<noteq> []"
      using False array_sort_set[of compareSpots xs] by (metis set_empty)
    have least: "\<forall>y \<in> set (array_sort compareSpots xs).
                   compareSpots (hd (array_sort compareSpots xs)) y \<le> 0"
      using Cons.IH[OF False] by (simp add: array_sort_set)
    have "z \<in> set (insert_sorted compareSpots x (array_sort compareSpots xs))"
      using Cons.prems by (simp add: insert_sorted_set array_sort_set)
    from hd_insert_sorted[OF ne least this] show ?thesis by simp
  qed
qed

text \<open>On eligible spot types the code's priority and order are those of the specification.\<close>

lemma priority_spec: "t \<in> spec_eligible vt \<Longrightarrow> getSpotTypePriority t = spec_priority t"
  by (auto simp: spec_eligible_def getSpotTypePriority_def spec_priority_def split: if_splits)

lemma compareSpots_precedes:
  "getSpotTypePriority (spot_type a) = spec_priority (spot_type a) \<Longrightarrow>
   getSpotTypePriority (spot_type b) = spec_priority (spot_type b) \<Longrightarrow>
   compareSpots a b \<le> 0 \<longleftrightarrow> spec_precedes a b"
  unfolding compareSpots_def spec_precedes_def Let_def by auto

lemma eligible_set:
  "vt \<in> {''MOTORCYCLE'', ''CAR'', ''BUS''} \<Longrightarrow>
   \<exists>ts. getEligibleSpotTypes vt = Inr ts \<and> set ts = spec_eligible vt"
  by (auto simp: getEligibleSpotTypes_def spec_eligible_def)

lemma matching_candidates:
  "set ts = spec_eligible vt \<Longrightarrow>
   set (filter (\<lambda>spot. spot_type spot \<in> set ts \<and> status spot = ''AVAILABLE'') availableSpots)
     = spec_candidates vt availableSpots"
  by (auto simp: spec_candidates_def)

text \<open>
  Claim C1.  For a vehicle type among MOTORCYCLE, CAR and BUS and any list of spots,
  \<open>selectOptimalSpot\<close> does not fail; it returns \<open>null\<close> exactly when no spot is AVAILABLE
  with a type eligible for the vehicle type; otherwise it returns one of these candidates,
  so a spot of an eligible type, which precedes or equals every candidate in the order by
  ascending floor, then ascending size priority, then ascending spot number.  Being a
  function of its two arguments, it returns the same spot on identical inputs.
\<close>

theorem selectOptimalSpot_least:
  assumes "vehicleType \<in> {''MOTORCYCLE'', ''CAR'', ''BUS''}"
  shows "case selectOptimalSpot vehicleType availableSpots of
           Inl e \<Rightarrow> False
         | Inr None \<Rightarrow> spec_candidates vehicleType availableSpots = {}
         | Inr (Some r) \<Rightarrow>
             r \<in> spec_candidates vehicleType availableSpots
             \<and> spot_type r \<in> spec_eligible vehicleType
             \<and> (\<forall>s \<in> spec_candidates vehicleType availableSpots. spec_precedes r s)"
proof -
  from eligible_set[OF assms] obtain ts where
    ts: "getEligibleSpotTypes vehicleType = Inr ts" "set ts = spec_eligible vehicleType" by blast
  define ms where
    "ms = filter (\<lambda>spot. spot_type spot \<in> set ts \<and> status spot = ''AVAILABLE'') availableSpots"
  have ms_set: "set ms = spec_candidates vehicleType availableSpots"
    unfolding ms_def by (rule matching_candidates[OF ts(2)])
  have ne: "vehicleType \<noteq> []" using assms by auto
  show ?thesis
  proof (cases "ms = []")
    case True
    then have "spec_candidates vehicleType availableSpots = {}" using ms_set by simp
    moreover have "selectOptimalSpot vehicleType availableSpots = Inr None"
      using True ne ts(1) unfolding selectOptimalSpot_def ms_def by (simp add: Let_def)
    ultimately show ?thesis by simp
  next
    case False
    then have nonempty: "availableSpots \<noteq> []" unfolding ms_def by auto
    have "sortSpotsByPriority ms \<noteq> []"
      using False array_sort_set[of compareSpots ms] unfolding sortSpotsByPriority_def
      by (metis set_empty)
    then obtain r rest where r: "sortSpotsByPriority ms = r # rest"
      by (cases "sortSpotsByPriority ms") auto
    have sel: "selectOptimalSpot vehicleType availableSpots = Inr (Some r)"
      using False ne ts(1) nonempty r unfolding selectOptimalSpot_def
      by (simp add: Let_def ms_def[symmetric])
    have r_in: "r \<in> set ms"
      using r array_sort_set[of compareSpots ms] unfolding sortSpotsByPriority_def
      by (metis list.set_intros(1))
    have r_hd: "r = hd (array_sort compareSpots ms)"
      using r unfolding sortSpotsByPriority_def by simp
    have r_type: "spot_type r \<in> spec_eligible vehicleType"
      using r_in ms_set by (auto simp: spec_candidates_def)
    have least: "spec_precedes r s" if "s \<in> spec_candidates vehicleType availableSpots" for s
    proof -
      have s_in: "s \<in> set ms" using that ms_set by simp
      have "compareSpots r s \<le> 0"
        unfolding r_hd by (rule array_sort_hd_least[OF False s_in])
      moreover have "spot_type s \<in> spec_eligible vehicleType"
        using that by (simp add: spec_candidates_def)
      ultimately show ?thesis
        using compareSpots_precedes[of r s] priority_spec r_type by blast
    qed
    show ?thesis using sel r_in ms_set least r_type by simp
  qed
qed

theorem selectOptimalSpot_least_witness:
  "selectOptimalSpot ''CAR'' floor_plan =
     Inr (Some \<lparr>s_id = 3, floor_number = 1, spot_number = 9, spot_type = ''CAR'',
                status = ''AVAILABLE'', current_vehicle_id = None\<rparr>)
   \<and> spec_precedes
         \<lparr>s_id = 3, floor_number = 1, spot_number = 9, spot_type = ''CAR'',
          status = ''AVAILABLE'', current_vehicle_id = None\<rparr>
         \<lparr>s_id = 1, floor_number = 2, spot_number = 1, spot_type = ''CAR'',
          status = ''AVAILABLE'', current_vehicle_id = None\<rparr>
   \<and> spec_precedes
         \<lparr>s_id = 3, floor_number = 1, spot_number = 9, spot_type = ''CAR'',
          status = ''AVAILABLE'', current_vehicle_id = None\<rparr>
         \<lparr>s_id = 2, floor_number = 1, spot_number = 7, spot_type = ''BUS'',
          status = ''AVAILABLE'', current_vehicle_id = None\<rparr>"
proof -
  have sel: "selectOptimalSpot ''CAR'' floor_plan =
     Inr (Some \<lparr>s_id = 3, floor_number = 1, spot_number = 9, spot_type = ''CAR'',
                status = ''AVAILABLE'', current_vehicle_id = None\<rparr>)"
    by code_simp
  have c1: "\<lparr>s_id = 1, floor_number = 2, spot_number = 1, spot_type = ''CAR'',
          status = ''AVAILABLE'', current_vehicle_id = None\<rparr> \<in> spec_candidates ''CAR'' floor_plan"
    by (simp add: spec_candidates_def spec_eligible_def floor_plan_def)
  have c2: "\<lparr>s_id = 2, floor_number = 1, spot_number = 7, spot_type = ''BUS'',
          status = ''AVAILABLE'', current_vehicle_id = None\<rparr> \<in> spec_candidates ''CAR'' floor_plan"
    by (simp add: spec_candidates_def spec_eligible_def floor_plan_def)
  have "\<forall>s \<in> spec_candidates ''CAR'' floor_plan.
          spec_precedes \<lparr>s_id = 3, floor_number = 1, spot_number = 9, spot_type = ''CAR'',
                         status = ''AVAILABLE'', current_vehicle_id = None\<rparr> s"
    using selectOptimalSpot_least[of "''CAR''" floor_plan] unfolding sel by simp
  then show ?thesis using sel c1 c2 by blast
qed

section \<open>The ledger: entries and exits keep the invariant\<close>

subsection \<open>Lookups and updates by id\<close>

lemma findByIdAndUpdate_ids:
  "(\<And>x. idOf (f x) = idOf x) \<Longrightarrow> map idOf (findByIdAndUpdate idOf i f xs) = map idOf xs"
  by (induction xs) auto

lemma findByIdAndUpdate_distinct:
  "distinct (map idOf xs) \<Longrightarrow>
   findByIdAndUpdate idOf i f xs = map (\<lambda>x. if idOf x = i then f x else x) xs"
proof (induction xs)
  case Nil
  then show ?case by simp
next
  case (Cons x xs)
  show ?case
  proof (cases "idOf x = i")
    case True
    then have "\<forall>y \<in> set xs. idOf y \<noteq> i" using Cons.prems by (auto simp: image_iff)
    then have "map (\<lambda>x. if idOf x = i then f x else x) xs = xs"
      by (induction xs) auto
    with True show ?thesis by simp
  next
    case False
    with Cons show ?thesis by simp
  qed
qed

lemma findActive_None_iff:
  "findActiveByVehicleId vid st = None \<longleftrightarrow>
   \<not> (\<exists>t \<in> set (transactions st). t_vehicle_id t = vid \<and> t_exit_time t = None)"
  unfolding findActiveByVehicleId_def by (auto simp: find_None_iff)

lemma findActive_SomeD:
  "findActiveByVehicleId vid st = Some t \<Longrightarrow>
   t \<in> set (transactions st) \<and> t_vehicle_id t = vid \<and> t_exit_time t = None"
  unfolding findActiveByVehicleId_def by (auto simp: find_Some_iff)

lemma findByLicensePlate_SomeD:
  "findByLicensePlate p st = Some v \<Longrightarrow> v \<in> set (vehicles st) \<and> v_license_plate v = toUpperCase p"
  unfolding findByLicensePlate_def by (auto simp: find_Some_iff)

lemma findByLicensePlate_None:
  "findByLicensePlate p st = None \<Longrightarrow> toUpperCase p \<notin> v_license_plate ` set (vehicles st)"
  unfolding findByLicensePlate_def by (auto simp: find_None_iff)

lemma findByLicensePlate_distinct:
  "distinct (map v_license_plate (vehicles st)) \<Longrightarrow> v \<in> set (vehicles st) \<Longrightarrow>
   v_license_plate v = toUpperCase p \<Longrightarrow> findByLicensePlate p st = Some v"
proof -
  assume d: "distinct (map v_license_plate (vehicles st))" and v: "v \<in> set (vehicles st)"
    and p: "v_license_plate v = toUpperCase p"
  have "\<exists>w. findByLicensePlate p st = Some w"
    using v p unfolding findByLicensePlate_def by (cases "find (\<lambda>v. v_license_plate v = toUpperCase p) (vehicles st)") (auto simp: find_None_iff)
  then obtain w where w: "findByLicensePlate p st = Some w" by blast
  from findByLicensePlate_SomeD[OF w] have "w \<in> set (vehicles st)" "v_license_plate w = v_license_plate v"
    using p by auto
  with d v have "w = v" by (meson distinct_map inj_onD)
  with w show ?thesis by simp
qed

lemma findSpotById_SomeD:
  "findSpotById i st = Some s \<Longrightarrow> s \<in> set (spots st) \<and> s_id s = i"
  unfolding findSpotById_def by (auto simp: find_Some_iff)

lemma findSpotById_None_iff:
  "findSpotById i st = None \<longleftrightarrow> i \<notin> s_id ` set (spots st)"
  unfolding findSpotById_def by (auto simp: find_None_iff)


lemma ledger_invariant_lots [simp]:
  "ledger_invariant (st\<lparr>lots := ls\<rparr>) = ledger_invariant st"
  unfolding ledger_invariant_def by simp

lemma ledger_invariant_create_vehicle:
  assumes inv: "ledger_invariant st"
    and fresh: "plate \<notin> v_license_plate ` set (vehicles st)"
  shows "ledger_invariant (snd (create_vehicle plate ty ow rg False st))"
proof -
  define v where "v = \<lparr>v_id = next_id st, v_license_plate = plate, v_vehicle_type = ty,
                v_owner_name = ow, v_registration_number = rg, is_currently_parked = False\<rparr>"
  define st' where "st' = snd (create_vehicle plate ty ow rg False st)"
  have vs: "vehicles st' = vehicles st @ [v]" and ts: "transactions st' = transactions st"
    and ss: "spots st' = spots st" and nx: "next_id st' = Suc (next_id st)"
    unfolding st'_def create_vehicle_def v_def by (simp_all add: Let_def)
  have idlt: "\<forall>u \<in> set (vehicles st). v_id u < next_id st"
    using inv unfolding ledger_invariant_def by blast
  have txs: "\<forall>t \<in> set (transactions st). t_id t < next_id st
           \<and> t_vehicle_id t \<in> v_id ` set (vehicles st)
           \<and> t_spot_id t \<in> s_id ` set (spots st)"
    using inv unfolding ledger_invariant_def by blast
  have 1: "distinct (map v_id (vehicles st'))"
    using inv idlt unfolding ledger_invariant_def vs v_def by auto
  have 2: "distinct (map v_license_plate (vehicles st'))"
    using inv fresh unfolding ledger_invariant_def vs v_def by auto
  have 3: "distinct (map t_id (transactions st'))"
    using inv unfolding ledger_invariant_def ts by blast
  have 4: "\<forall>u \<in> set (vehicles st'). v_id u < next_id st'"
    using idlt unfolding vs nx v_def by auto
  have 5: "\<forall>t \<in> set (transactions st'). t_id t < next_id st'
           \<and> t_vehicle_id t \<in> v_id ` set (vehicles st')
           \<and> t_spot_id t \<in> s_id ` set (spots st')"
    using txs unfolding vs ts ss nx by auto
  have nov: "\<not> (\<exists>t \<in> set (transactions st). t_vehicle_id t = next_id st)"
    using txs idlt by fastforce
  have 6: "\<forall>u \<in> set (vehicles st'). is_currently_parked u
           \<longleftrightarrow> (\<exists>t \<in> set (transactions st'). t_vehicle_id t = v_id u \<and> t_exit_time t = None)"
  proof
    fix u assume "u \<in> set (vehicles st')"
    then consider "u \<in> set (vehicles st)" | "u = v" unfolding vs by auto
    then show "is_currently_parked u
           \<longleftrightarrow> (\<exists>t \<in> set (transactions st'). t_vehicle_id t = v_id u \<and> t_exit_time t = None)"
    proof cases
      case 1
      then show ?thesis using inv unfolding ledger_invariant_def ts by blast
    next
      case 2
      then show ?thesis using nov unfolding ts v_def by auto
    qed
  qed
  have 7: "\<forall>t \<in> set (transactions st'). \<forall>t' \<in> set (transactions st').
           t_exit_time t = None \<and> t_exit_time t' = None \<and> t_vehicle_id t = t_vehicle_id t'
           \<longrightarrow> t = t'"
    using inv unfolding ledger_invariant_def ts by blast
  show ?thesis
    unfolding st'_def[symmetric] ledger_invariant_def using 1 2 3 4 5 6 7 by blast
qed


lemma ledger_invariant_park:
  assumes inv: "ledger_invariant st"
    and v: "v \<in> set (vehicles st)"
    and free: "\<not> is_currently_parked v"
    and sid: "sid \<in> s_id ` set (spots st)"
  shows "ledger_invariant
           (updateParkingStatus (v_id v) True
              (snd (updateStatus sid ''OCCUPIED'' (Some (v_id v))
                 (snd (create_transaction (v_id v) sid now st)))))"
proof -
  define tn where "tn = \<lparr>t_id = next_id st, t_vehicle_id = v_id v, t_spot_id = sid,
                t_entry_time = now, t_exit_time = None, t_duration_minutes = None,
                t_parking_fee = None, payment_status = ''PENDING'', payment_method = None\<rparr>"
  define g where "g = (\<lambda>u :: vehicle. if v_id u = v_id v then u\<lparr>is_currently_parked := True\<rparr> else u)"
  define st' where "st' = updateParkingStatus (v_id v) True
              (snd (updateStatus sid ''OCCUPIED'' (Some (v_id v))
                 (snd (create_transaction (v_id v) sid now st))))"
  have dv: "distinct (map v_id (vehicles st))"
    and dp: "distinct (map v_license_plate (vehicles st))"
    and dt: "distinct (map t_id (transactions st))"
    and idlt: "\<forall>u \<in> set (vehicles st). v_id u < next_id st"
    and txs: "\<forall>t \<in> set (transactions st). t_id t < next_id st
           \<and> t_vehicle_id t \<in> v_id ` set (vehicles st)
           \<and> t_spot_id t \<in> s_id ` set (spots st)"
    and fl: "\<forall>u \<in> set (vehicles st). is_currently_parked u
           \<longleftrightarrow> (\<exists>t \<in> set (transactions st). t_vehicle_id t = v_id u \<and> t_exit_time t = None)"
    and un: "\<forall>t \<in> set (transactions st). \<forall>t' \<in> set (transactions st).
           t_exit_time t = None \<and> t_exit_time t' = None \<and> t_vehicle_id t = t_vehicle_id t'
           \<longrightarrow> t = t'"
    using inv unfolding ledger_invariant_def by blast+
  have vs0: "vehicles st' =
      findByIdAndUpdate v_id (v_id v) (\<lambda>u. u\<lparr>is_currently_parked := True\<rparr>) (vehicles st)"
    and ts: "transactions st' = transactions st @ [tn]"
    and nx: "next_id st' = Suc (next_id st)"
    and ss: "map s_id (spots st') = map s_id (spots st)"
    unfolding st'_def updateParkingStatus_def updateStatus_def create_transaction_def tn_def
    by (simp_all add: Let_def findByIdAndUpdate_ids)
  have vs: "vehicles st' = map g (vehicles st)"
    unfolding vs0 g_def by (rule findByIdAndUpdate_distinct[OF dv])
  have gid: "v_id (g u) = v_id u" and gpl: "v_license_plate (g u) = v_license_plate u" for u
    unfolding g_def by simp_all
  have ids: "map v_id (vehicles st') = map v_id (vehicles st)"
    and pls: "map v_license_plate (vehicles st') = map v_license_plate (vehicles st)"
    unfolding vs by (simp_all add: gid gpl comp_def)
  have sset: "s_id ` set (spots st') = s_id ` set (spots st)"
    using ss by (metis set_map)
  have vset: "v_id ` set (vehicles st') = v_id ` set (vehicles st)"
    using ids by (metis set_map)
  have noopen: "\<not> (\<exists>t \<in> set (transactions st). t_vehicle_id t = v_id v \<and> t_exit_time t = None)"
    using fl v free by blast
  have 1: "distinct (map v_id (vehicles st'))" unfolding ids by (rule dv)
  have 2: "distinct (map v_license_plate (vehicles st'))" unfolding pls by (rule dp)
  have 3: "distinct (map t_id (transactions st'))"
    using dt txs unfolding ts tn_def by auto
  have 4: "\<forall>u \<in> set (vehicles st'). v_id u < next_id st'"
    using idlt unfolding vs nx by (auto simp: gid)
  have 5: "\<forall>t \<in> set (transactions st'). t_id t < next_id st'
           \<and> t_vehicle_id t \<in> v_id ` set (vehicles st')
           \<and> t_spot_id t \<in> s_id ` set (spots st')"
    unfolding vset sset nx ts using txs v sid by (auto simp: tn_def)
  have 6: "\<forall>u \<in> set (vehicles st'). is_currently_parked u
           \<longleftrightarrow> (\<exists>t \<in> set (transactions st'). t_vehicle_id t = v_id u \<and> t_exit_time t = None)"
  proof
    fix u' assume "u' \<in> set (vehicles st')"
    then obtain u where u: "u \<in> set (vehicles st)" "u' = g u" unfolding vs by auto
    show "is_currently_parked u'
           \<longleftrightarrow> (\<exists>t \<in> set (transactions st'). t_vehicle_id t = v_id u' \<and> t_exit_time t = None)"
    proof (cases "v_id u = v_id v")
      case True
      then have "is_currently_parked u'" unfolding u(2) g_def by simp
      moreover have "tn \<in> set (transactions st') \<and> t_vehicle_id tn = v_id u' \<and> t_exit_time tn = None"
        unfolding ts u(2) gid using True by (simp add: tn_def)
      ultimately show ?thesis by blast
    next
      case False
      then have "is_currently_parked u' = is_currently_parked u" "v_id u' = v_id u"
        unfolding u(2) g_def by simp_all
      moreover have "t_vehicle_id tn \<noteq> v_id u" using False by (simp add: tn_def)
      ultimately show ?thesis using fl u(1) unfolding ts by auto
    qed
  qed
  have 7: "\<forall>t \<in> set (transactions st'). \<forall>t' \<in> set (transactions st').
           t_exit_time t = None \<and> t_exit_time t' = None \<and> t_vehicle_id t = t_vehicle_id t'
           \<longrightarrow> t = t'"
  proof (intro ballI impI)
    fix t t' assume t: "t \<in> set (transactions st')" and t': "t' \<in> set (transactions st')"
      and o: "t_exit_time t = None \<and> t_exit_time t' = None \<and> t_vehicle_id t = t_vehicle_id t'"
    have tv: "t_vehicle_id tn = v_id v" by (simp add: tn_def)
    from t t' consider "t = tn" "t' = tn" | "t = tn" "t' \<in> set (transactions st)"
      | "t \<in> set (transactions st)" "t' = tn"
      | "t \<in> set (transactions st)" "t' \<in> set (transactions st)"
      unfolding ts by auto
    then show "t = t'"
    proof cases
      case 1 then show ?thesis by simp
    next
      case 2 then show ?thesis using o tv noopen by auto
    next
      case 3 then show ?thesis using o tv noopen by auto
    next
      case 4 then show ?thesis using o un by blast
    qed
  qed
  show ?thesis
    unfolding st'_def[symmetric] ledger_invariant_def using 1 2 3 4 5 6 7 by blast
qed


lemma ledger_invariant_leave:
  assumes inv: "ledger_invariant st"
    and v: "v \<in> set (vehicles st)"
    and act: "findActiveByVehicleId (v_id v) st = Some t"
  shows "ledger_invariant
           (updateParkingStatus (v_id v) False
              (snd (updateStatus sid ''AVAILABLE'' None
                 (updateExit (t_id t) now d fee ''PENDING'' st))))"
proof -
  define g where "g = (\<lambda>u :: vehicle. if v_id u = v_id v then u\<lparr>is_currently_parked := False\<rparr> else u)"
  define close where "close = (\<lambda>x :: parking_transaction.
     x\<lparr>t_exit_time := Some now, t_duration_minutes := Some d,
       t_parking_fee := Some fee, payment_status := ''PENDING''\<rparr>)"
  define h where "h = (\<lambda>x :: parking_transaction. if t_id x = t_id t then close x else x)"
  define st' where "st' = updateParkingStatus (v_id v) False
              (snd (updateStatus sid ''AVAILABLE'' None
                 (updateExit (t_id t) now d fee ''PENDING'' st)))"
  have dv: "distinct (map v_id (vehicles st))"
    and dp: "distinct (map v_license_plate (vehicles st))"
    and dt: "distinct (map t_id (transactions st))"
    and idlt: "\<forall>u \<in> set (vehicles st). v_id u < next_id st"
    and txs: "\<forall>t \<in> set (transactions st). t_id t < next_id st
           \<and> t_vehicle_id t \<in> v_id ` set (vehicles st)
           \<and> t_spot_id t \<in> s_id ` set (spots st)"
    and fl: "\<forall>u \<in> set (vehicles st). is_currently_parked u
           \<longleftrightarrow> (\<exists>t \<in> set (transactions st). t_vehicle_id t = v_id u \<and> t_exit_time t = None)"
    and un: "\<forall>t \<in> set (transactions st). \<forall>t' \<in> set (transactions st).
           t_exit_time t = None \<and> t_exit_time t' = None \<and> t_vehicle_id t = t_vehicle_id t'
           \<longrightarrow> t = t'"
    using inv unfolding ledger_invariant_def by blast+
  from findActive_SomeD[OF act] have tin: "t \<in> set (transactions st)"
    and tv: "t_vehicle_id t = v_id v" and topen: "t_exit_time t = None" by blast+
  have vs0: "vehicles st' =
      findByIdAndUpdate v_id (v_id v) (\<lambda>u. u\<lparr>is_currently_parked := False\<rparr>) (vehicles st)"
    and ts0: "transactions st' = findByIdAndUpdate t_id (t_id t) close (transactions st)"
    and nx: "next_id st' = next_id st"
    and ss: "map s_id (spots st') = map s_id (spots st)"
    unfolding st'_def updateParkingStatus_def updateStatus_def updateExit_def close_def
    by (simp_all add: Let_def findByIdAndUpdate_ids)
  have vs: "vehicles st' = map g (vehicles st)"
    unfolding vs0 g_def by (rule findByIdAndUpdate_distinct[OF dv])
  have ts: "transactions st' = map h (transactions st)"
    unfolding ts0 h_def by (rule findByIdAndUpdate_distinct[OF dt])
  have gid: "v_id (g u) = v_id u" and gpl: "v_license_plate (g u) = v_license_plate u" for u
    unfolding g_def by simp_all
  have hid: "t_id (h x) = t_id x" and hv: "t_vehicle_id (h x) = t_vehicle_id x"
    and hs: "t_spot_id (h x) = t_spot_id x" for x
    unfolding h_def close_def by simp_all
  have hopen: "t_exit_time (h x) = None \<longleftrightarrow> t_exit_time x = None \<and> t_id x \<noteq> t_id t" for x
    unfolding h_def close_def by simp
  have hsame: "h x = x" if "t_id x \<noteq> t_id t" for x
    using that unfolding h_def by simp
  have tid_eq: "x = t" if "x \<in> set (transactions st)" "t_id x = t_id t" for x
    using that tin dt by (meson distinct_map inj_onD)
  have ids: "map v_id (vehicles st') = map v_id (vehicles st)"
    and pls: "map v_license_plate (vehicles st') = map v_license_plate (vehicles st)"
    unfolding vs by (simp_all add: gid gpl comp_def)
  have tids: "map t_id (transactions st') = map t_id (transactions st)"
    unfolding ts by (simp add: hid comp_def)
  have sset: "s_id ` set (spots st') = s_id ` set (spots st)"
    using ss by (metis set_map)
  have vset: "v_id ` set (vehicles st') = v_id ` set (vehicles st)"
    using ids by (metis set_map)
  have 1: "distinct (map v_id (vehicles st'))" unfolding ids by (rule dv)
  have 2: "distinct (map v_license_plate (vehicles st'))" unfolding pls by (rule dp)
  have 3: "distinct (map t_id (transactions st'))" unfolding tids by (rule dt)
  have 4: "\<forall>u \<in> set (vehicles st'). v_id u < next_id st'"
    using idlt unfolding vs nx by (auto simp: gid)
  have 5: "\<forall>t \<in> set (transactions st'). t_id t < next_id st'
           \<and> t_vehicle_id t \<in> v_id ` set (vehicles st')
           \<and> t_spot_id t \<in> s_id ` set (spots st')"
    unfolding vset sset nx ts using txs by (auto simp: hid hv hs)
  have open_iff: "(\<exists>x \<in> set (transactions st'). t_vehicle_id x = i \<and> t_exit_time x = None)
       \<longleftrightarrow> (\<exists>x \<in> set (transactions st). t_vehicle_id x = i \<and> t_exit_time x = None \<and> x \<noteq> t)" for i
  proof
    assume "\<exists>x \<in> set (transactions st'). t_vehicle_id x = i \<and> t_exit_time x = None"
    then obtain x where x: "x \<in> set (transactions st)" "t_vehicle_id (h x) = i" "t_exit_time (h x) = None"
      unfolding ts by auto
    then have "t_vehicle_id x = i" "t_exit_time x = None" "x \<noteq> t"
      using hv hopen by auto
    with x(1) show "\<exists>x \<in> set (transactions st). t_vehicle_id x = i \<and> t_exit_time x = None \<and> x \<noteq> t"
      by blast
  next
    assume "\<exists>x \<in> set (transactions st). t_vehicle_id x = i \<and> t_exit_time x = None \<and> x \<noteq> t"
    then obtain x where x: "x \<in> set (transactions st)" "t_vehicle_id x = i" "t_exit_time x = None" "x \<noteq> t"
      by blast
    then have "t_id x \<noteq> t_id t" using tid_eq by blast
    then have hx: "h x = x" by (rule hsame)
    have "h x \<in> set (transactions st')" unfolding ts using x(1) by simp
    then have "x \<in> set (transactions st')" unfolding hx .
    then have "x \<in> set (transactions st') \<and> t_vehicle_id x = i \<and> t_exit_time x = None"
      using x by simp
    then show "\<exists>x \<in> set (transactions st'). t_vehicle_id x = i \<and> t_exit_time x = None" by blast
  qed
  have 6: "\<forall>u \<in> set (vehicles st'). is_currently_parked u
           \<longleftrightarrow> (\<exists>t \<in> set (transactions st'). t_vehicle_id t = v_id u \<and> t_exit_time t = None)"
  proof
    fix u' assume "u' \<in> set (vehicles st')"
    then obtain u where u: "u \<in> set (vehicles st)" "u' = g u" unfolding vs by auto
    show "is_currently_parked u'
           \<longleftrightarrow> (\<exists>t \<in> set (transactions st'). t_vehicle_id t = v_id u' \<and> t_exit_time t = None)"
    proof (cases "v_id u = v_id v")
      case True
      then have a: "\<not> is_currently_parked u'" and b: "v_id u' = v_id v" unfolding u(2) g_def by simp_all
      have "\<not> (\<exists>x \<in> set (transactions st). t_vehicle_id x = v_id v \<and> t_exit_time x = None \<and> x \<noteq> t)"
        using un tin tv topen by metis
      then show ?thesis using a unfolding b open_iff by blast
    next
      case False
      then have a: "is_currently_parked u' = is_currently_parked u" and b: "v_id u' = v_id u"
        unfolding u(2) g_def by simp_all
      have "(\<exists>x \<in> set (transactions st). t_vehicle_id x = v_id u \<and> t_exit_time x = None \<and> x \<noteq> t)
          \<longleftrightarrow> (\<exists>x \<in> set (transactions st). t_vehicle_id x = v_id u \<and> t_exit_time x = None)"
        using False tv by auto
      then show ?thesis using fl u(1) unfolding a b open_iff by blast
    qed
  qed
  have 7: "\<forall>x \<in> set (transactions st'). \<forall>y \<in> set (transactions st').
           t_exit_time x = None \<and> t_exit_time y = None \<and> t_vehicle_id x = t_vehicle_id y
           \<longrightarrow> x = y"
  proof (intro ballI impI)
    fix x' y' assume "x' \<in> set (transactions st')" "y' \<in> set (transactions st')"
      and o: "t_exit_time x' = None \<and> t_exit_time y' = None \<and> t_vehicle_id x' = t_vehicle_id y'"
    then obtain x y where xy: "x \<in> set (transactions st)" "y \<in> set (transactions st)"
      "x' = h x" "y' = h y" unfolding ts by auto
    from o have ox: "t_exit_time x = None" "t_id x \<noteq> t_id t" and oy: "t_exit_time y = None" "t_id y \<noteq> t_id t"
      and same: "t_vehicle_id x = t_vehicle_id y"
      unfolding xy(3,4) hopen hv by blast+
    have "x = y" using un xy(1,2) ox(1) oy(1) same by blast
    then show "x' = y'" unfolding xy(3,4) by simp
  qed
  show ?thesis
    unfolding st'_def[symmetric] ledger_invariant_def using 1 2 3 4 5 6 7 by blast
qed


lemma selectOptimalSpot_in:
  assumes "selectOptimalSpot vt xs = Inr (Some s)"
  shows "s \<in> set xs"
proof -
  have "s \<in> set (filter P xs)" if "array_sort compareSpots (filter P xs) = s # rest" for P rest
    using array_sort_set[of compareSpots "filter P xs"] that by (metis list.set_intros(1))
  then show ?thesis
    using assms unfolding selectOptimalSpot_def sortSpotsByPriority_def
    by (auto simp: Let_def split: if_splits sum.splits list.splits)
qed

lemma allocateSpot_in:
  assumes "allocateSpot vt st = Inr (Some s)"
  shows "s \<in> set (spots st)"
proof -
  from assms obtain ts where
    "selectOptimalSpot vt (findAvailableByTypes ts st) = Inr (Some s)"
    unfolding allocateSpot_def by (auto simp: Let_def split: sum.splits if_splits)
  then have "s \<in> set (findAvailableByTypes ts st)" by (rule selectOptimalSpot_in)
  then show ?thesis unfolding findAvailableByTypes_def by (simp add: array_sort_set)
qed

lemma processEntry_invariant:
  assumes inv: "ledger_invariant st"
  shows "ledger_invariant (snd (processEntry d now st))"
proof -
  define ev where "ev = findByLicensePlate (ed_license_plate d) st"
  show ?thesis
  proof (cases "case ev of None \<Rightarrow> False | Some v \<Rightarrow> is_currently_parked v")
    case True
    then have "snd (processEntry d now st) = st"
      unfolding processEntry_def ev_def by (simp add: Let_def)
    with inv show ?thesis by simp
  next
    case False
    define vs1 where "vs1 = (case ev of Some v \<Rightarrow> (v, st)
      | None \<Rightarrow> create_vehicle (toUpperCase (ed_license_plate d)) (ed_vehicle_type d)
                 (ed_owner_name d) (ed_registration_number d) False st)"
    obtain vehicle st1 where vs1: "vs1 = (vehicle, st1)" by (cases vs1)
    have st1: "ledger_invariant st1 \<and> vehicle \<in> set (vehicles st1) \<and> \<not> is_currently_parked vehicle"
    proof (cases ev)
      case None
      then have fresh: "toUpperCase (ed_license_plate d) \<notin> v_license_plate ` set (vehicles st)"
        unfolding ev_def by (rule findByLicensePlate_None)
      have "st1 = snd (create_vehicle (toUpperCase (ed_license_plate d)) (ed_vehicle_type d)
                 (ed_owner_name d) (ed_registration_number d) False st)"
        using vs1 None unfolding vs1_def by simp
      then have "ledger_invariant st1"
        using ledger_invariant_create_vehicle[OF inv fresh] by simp
      moreover have "vehicle \<in> set (vehicles st1) \<and> \<not> is_currently_parked vehicle"
        using vs1 None unfolding vs1_def create_vehicle_def by (auto simp: Let_def)
      ultimately show ?thesis by blast
    next
      case (Some v)
      then have "vehicle = v" "st1 = st" using vs1 unfolding vs1_def by simp_all
      moreover have "v \<in> set (vehicles st)"
        using Some findByLicensePlate_SomeD unfolding ev_def by blast
      moreover have "\<not> is_currently_parked v" using False Some by simp
      ultimately show ?thesis using inv by simp
    qed
    have unf: "processEntry d now st =
        (case allocateSpot (ed_vehicle_type d) st1 of
             Inl e \<Rightarrow> (Inl e, st1)
           | Inr None \<Rightarrow>
               (Inl (AppError (''No available parking spots for vehicle type ''
                                 @ ed_vehicle_type d) 409 ''NO_SPOT_AVAILABLE''), st1)
           | Inr (Some allocatedSpot) \<Rightarrow>
               let entryTime = now;
                   (transaction, st2) =
                     create_transaction (v_id vehicle) (s_id allocatedSpot) entryTime st1;
                   st3 = snd (updateStatus (s_id allocatedSpot) ''OCCUPIED'' (Some (v_id vehicle)) st2);
                   st4 = updateParkingStatus (v_id vehicle) True st3;
                   st5 = (case findDefault st4 of
                            None \<Rightarrow> st4
                          | Some lot \<Rightarrow>
                              incrementOccupiedSpots (l_id lot) (ed_vehicle_type d) st4)
               in (Inr \<lparr>ec_transaction_id = t_id transaction, ec_vehicle_id = v_id vehicle,
                        ec_spot_id = s_id allocatedSpot,
                        ec_floor_number = floor_number allocatedSpot,
                        ec_spot_number = spot_number allocatedSpot,
                        ec_spot_type = spot_type allocatedSpot,
                        ec_entry_time = entryTime\<rparr>, st5))"
      using False vs1[unfolded vs1_def] unfolding processEntry_def ev_def[symmetric] Let_def
      by simp
    show ?thesis
    proof (cases "allocateSpot (ed_vehicle_type d) st1")
      case (Inl e)
      then show ?thesis unfolding unf using st1 by simp
    next
      case (Inr r)
      show ?thesis
      proof (cases r)
        case None
        then show ?thesis unfolding unf using st1 Inr by simp
      next
        case (Some sp)
        then have "sp \<in> set (spots st1)" using Inr allocateSpot_in by blast
        then have sid: "s_id sp \<in> s_id ` set (spots st1)" by simp
        have park: "ledger_invariant (updateParkingStatus (v_id vehicle) True
              (snd (updateStatus (s_id sp) ''OCCUPIED'' (Some (v_id vehicle))
                 (snd (create_transaction (v_id vehicle) (s_id sp) now st1)))))"
          using ledger_invariant_park[OF _ _ _ sid] st1 by blast
        show ?thesis
          unfolding unf using Inr Some park
          by (simp add: Let_def case_prod_beta incrementOccupiedSpots_def split: option.splits)
      qed
    qed
  qed
qed

lemma processExit_invariant:
  assumes inv: "ledger_invariant st"
  shows "ledger_invariant (snd (processExit p now st))"
proof (cases "findByLicensePlate p st")
  case None
  then show ?thesis using inv unfolding processExit_def by simp
next
  case (Some v)
  then have vin: "v \<in> set (vehicles st)" using findByLicensePlate_SomeD by blast
  show ?thesis
  proof (cases "is_currently_parked v")
    case False
    then show ?thesis using inv Some unfolding processExit_def by simp
  next
    case True
    show ?thesis
    proof (cases "findActiveByVehicleId (v_id v) st")
      case None
      then show ?thesis using inv Some True unfolding processExit_def by simp
    next
      case act: (Some t)
      show ?thesis
      proof (cases "findByVehicleType (v_vehicle_type v) st")
        case None
        then show ?thesis using inv Some True act unfolding processExit_def by (simp add: Let_def)
      next
        case rc: (Some rateCard)
        show ?thesis
        proof (cases "calculateFee (v_vehicle_type v) (t_entry_time t) now rateCard")
          case (Inl e)
          then show ?thesis using inv Some True act rc unfolding processExit_def by (simp add: Let_def)
        next
          case (Inr fd)
          have "t \<in> set (transactions st)" using findActive_SomeD[OF act] by blast
          then have "t_spot_id t \<in> s_id ` set (spots st)"
            using inv unfolding ledger_invariant_def by blast
          then obtain sp where sp: "findSpotById (t_spot_id t) st = Some sp"
            using findSpotById_None_iff[of "t_spot_id t" st] by (cases "findSpotById (t_spot_id t) st") auto
          have leave: "ledger_invariant
             (updateParkingStatus (v_id v) False
                (snd (updateStatus (s_id sp) ''AVAILABLE'' None
                   (updateExit (t_id t) now (duration_minutes fd) (parking_fee fd) ''PENDING'' st))))"
            by (rule ledger_invariant_leave[OF inv vin act])
          show ?thesis
            using Some True act rc Inr sp leave unfolding processExit_def
            by (simp add: Let_def decrementOccupiedSpots_def split: option.splits)
        qed
      qed
    qed
  qed
qed

lemma reachable_invariant: "reachable st \<Longrightarrow> ledger_invariant st"
proof (induction rule: reachable.induct)
  case (initial st)
  then show ?case unfolding ledger_invariant_def by simp
next
  case (entry st entryData now)
  then show ?case by (simp add: processEntry_invariant)
next
  case (exit st license_plate now)
  then show ?case by (simp add: processExit_invariant)
qed

subsection \<open>Claims about entry and exit\<close>

text \<open>
  Claim C8.  In every store reached by entries and exits, an entry request for a stored
  vehicle that holds an open transaction fails with the error code
  \<open>VEHICLE_ALREADY_PARKED\<close> (status 409) and returns the store as it was: the open
  transaction, the spots and the vehicle record are unchanged.
\<close>

theorem second_entry_rejected:
  assumes "reachable st"
    and "v \<in> set (vehicles st)"
    and "toUpperCase (ed_license_plate entryData) = v_license_plate v"
    and "findActiveByVehicleId (v_id v) st \<noteq> None"
  shows "processEntry entryData now st =
           (Inl (AppError (''Vehicle '' @ ed_license_plate entryData @ '' is already parked in the lot'')
                   409 ''VEHICLE_ALREADY_PARKED''), st)"
proof -
  have inv: "ledger_invariant st" using assms(1) by (rule reachable_invariant)
  then have dp: "distinct (map v_license_plate (vehicles st))"
    and fl: "\<forall>u \<in> set (vehicles st). is_currently_parked u
           \<longleftrightarrow> (\<exists>t \<in> set (transactions st). t_vehicle_id t = v_id u \<and> t_exit_time t = None)"
    unfolding ledger_invariant_def by blast+
  have found: "findByLicensePlate (ed_license_plate entryData) st = Some v"
    using findByLicensePlate_distinct[OF dp assms(2)] assms(3) by simp
  have "\<exists>t \<in> set (transactions st). t_vehicle_id t = v_id v \<and> t_exit_time t = None"
    using assms(4) unfolding findActive_None_iff by simp
  then have parked: "is_currently_parked v"
    using fl assms(2) by blast
  show ?thesis unfolding processEntry_def Let_def found using parked by simp
qed

theorem second_entry_rejected_witness:
  "processEntry car_request 36000001 parked_store =
     (Inl (AppError ''Vehicle KA01AB1234 is already parked in the lot'' 409
             ''VEHICLE_ALREADY_PARKED''), parked_store)"
proof -
  have r: "reachable parked_store"
    unfolding parked_store_def
    by (rule reachable.entry, rule reachable.initial) (simp_all add: opening_store_def)
  have v: "\<lparr>v_id = 100, v_license_plate = ''KA01AB1234'', v_vehicle_type = ''CAR'',
       v_owner_name = None, v_registration_number = None, is_currently_parked = True\<rparr>
       \<in> set (vehicles parked_store)"
    by code_simp
  have p: "toUpperCase (ed_license_plate car_request) =
       v_license_plate \<lparr>v_id = 100, v_license_plate = ''KA01AB1234'', v_vehicle_type = ''CAR'',
       v_owner_name = None, v_registration_number = None, is_currently_parked = True\<rparr>"
    by code_simp
  have a: "findActiveByVehicleId
       (v_id \<lparr>v_id = 100, v_license_plate = ''KA01AB1234'', v_vehicle_type = ''CAR'',
       v_owner_name = None, v_registration_number = None, is_currently_parked = True\<rparr>)
       parked_store \<noteq> None"
    by code_simp
  from second_entry_rejected[OF r v p a, of 36000001] show ?thesis
    by (simp add: car_request_def)
qed

text \<open>
  Claim C9, as the code has it.  An exit request for a stored vehicle without open
  transaction fails and returns the store as it was.  The error depends on the vehicle's
  \<open>is_currently_parked\<close> flag, which \<open>processExit\<close> tests first: \<open>ALREADY_EXITED\<close>
  (409) when the flag is false, \<open>TRANSACTION_NOT_FOUND\<close> (404) when it is true.  In a
  store reached by entries and exits the flag of such a vehicle is false.
\<close>

theorem exit_without_open_transaction:
  assumes "findByLicensePlate license_plate st = Some vehicle"
    and "findActiveByVehicleId (v_id vehicle) st = None"
  shows "processExit license_plate now st =
           (Inl (if is_currently_parked vehicle
                 then AppError (''No active parking transaction found for vehicle '' @ license_plate)
                        404 ''TRANSACTION_NOT_FOUND''
                 else AppError (''Vehicle '' @ license_plate @ '' is not currently parked'')
                        409 ''ALREADY_EXITED''), st)
         \<and> (reachable st \<longrightarrow> \<not> is_currently_parked vehicle)"
proof -
  have 1: "processExit license_plate now st =
           (Inl (if is_currently_parked vehicle
                 then AppError (''No active parking transaction found for vehicle '' @ license_plate)
                        404 ''TRANSACTION_NOT_FOUND''
                 else AppError (''Vehicle '' @ license_plate @ '' is not currently parked'')
                        409 ''ALREADY_EXITED''), st)"
    using assms unfolding processExit_def by simp
  have 2: "\<not> is_currently_parked vehicle" if "reachable st"
  proof -
    have "ledger_invariant st" using that by (rule reachable_invariant)
    moreover have "vehicle \<in> set (vehicles st)"
      using findByLicensePlate_SomeD[OF assms(1)] by blast
    ultimately show ?thesis
      using assms(2) unfolding ledger_invariant_def findActive_None_iff by blast
  qed
  show ?thesis using 1 2 by blast
qed

theorem exit_without_open_transaction_witness:
  "processExit ''KA01AB1234'' 45300001 vacated_store =
     (Inl (AppError ''Vehicle KA01AB1234 is not currently parked'' 409 ''ALREADY_EXITED''),
      vacated_store)"
proof -
  have f: "findByLicensePlate ''KA01AB1234'' vacated_store =
     Some \<lparr>v_id = 100, v_license_plate = ''KA01AB1234'', v_vehicle_type = ''CAR'',
           v_owner_name = None, v_registration_number = None, is_currently_parked = False\<rparr>"
    by code_simp
  have a: "findActiveByVehicleId
             (v_id \<lparr>v_id = 100, v_license_plate = ''KA01AB1234'', v_vehicle_type = ''CAR'',
               v_owner_name = None, v_registration_number = None, is_currently_parked = False\<rparr>)
             vacated_store = None"
    by code_simp
  from exit_without_open_transaction[OF f a, of 45300001] show ?thesis by simp
qed

text \<open>
  Claim C9 as stated does not hold: after the car has entered and left, it is a stored
  vehicle without open transaction, and a further exit request fails with
  \<open>ALREADY_EXITED\<close>, not with \<open>TRANSACTION_NOT_FOUND\<close>.
\<close>

theorem exit_after_exit_is_already_exited:
  "findByLicensePlate ''KA01AB1234'' vacated_store =
     Some \<lparr>v_id = 100, v_license_plate = ''KA01AB1234'', v_vehicle_type = ''CAR'',
           v_owner_name = None, v_registration_number = None, is_currently_parked = False\<rparr>
   \<and> findActiveByVehicleId 100 vacated_store = None
   \<and> processExit ''KA01AB1234'' 45300001 vacated_store =
       (Inl (AppError ''Vehicle KA01AB1234 is not currently parked'' 409 ''ALREADY_EXITED''),
        vacated_store)"
  by code_simp

section \<open>Release of a spot\<close>

lemma findSpotById_update:
  assumes "findSpotById i st = Some spot" and "\<And>x. s_id (f x) = s_id x"
  shows "findSpotById i (st\<lparr>spots := findByIdAndUpdate s_id i f (spots st)\<rparr>) = Some (f spot)"
proof -
  have "find (\<lambda>s. s_id s = i) xs = Some spot \<Longrightarrow>
        find (\<lambda>s. s_id s = i) (findByIdAndUpdate s_id i f xs) = Some (f spot)" for xs
    by (induction xs) (auto simp: assms(2))
  then show ?thesis using assms(1) unfolding findSpotById_def by simp
qed

lemma findByIdAndUpdate_first_fixed:
  "find (\<lambda>x. idOf x = i) xs = Some y \<Longrightarrow> f y = y \<Longrightarrow> findByIdAndUpdate idOf i f xs = xs"
  by (induction xs) (auto split: if_splits)

text \<open>
  Claim C6.  The release at vehicle exit, \<open>updateStatus(spot._id, 'AVAILABLE', null)\<close>,
  sets the status of the occupied spot to AVAILABLE, but \<open>updateStatus\<close> takes the
  \<open>null\<close> for an absent argument and leaves \<open>current_vehicle_id\<close> as it was: after the
  car has left, its spot is AVAILABLE and still refers to vehicle 100.
\<close>

theorem release_leaves_occupant:
  "findSpotById 1 parked_store =
     Some \<lparr>s_id = 1, floor_number = 1, spot_number = 1, spot_type = ''CAR'',
           status = ''OCCUPIED'', current_vehicle_id = Some 100\<rparr>
   \<and> fst (updateStatus 1 ''AVAILABLE'' None parked_store) =
     Some \<lparr>s_id = 1, floor_number = 1, spot_number = 1, spot_type = ''CAR'',
           status = ''AVAILABLE'', current_vehicle_id = Some 100\<rparr>
   \<and> fst (processExit ''KA01AB1234'' 45300000 parked_store) =
     Inr \<lparr>xc_transaction_id = 101, xc_vehicle_id = 100, xc_spot_id = 1,
          xc_entry_time = 36000000, xc_exit_time = 45300000, xc_duration_minutes = 155,
          xc_parking_fee = 24, xc_payment_status = ''PENDING''\<rparr>
   \<and> findSpotById 1 vacated_store =
     Some \<lparr>s_id = 1, floor_number = 1, spot_number = 1, spot_type = ''CAR'',
           status = ''AVAILABLE'', current_vehicle_id = Some 100\<rparr>"
  by code_simp

text \<open>
  Claim C7, as the code has it.  \<open>updateStatus\<close> does not look at the current status:
  releasing a stored spot that is not OCCUPIED raises no error and returns the spot with
  status AVAILABLE and every other field as before.  A spot that was AVAILABLE is left
  unchanged; a spot under MAINTENANCE becomes AVAILABLE.
\<close>

theorem release_without_occupancy_check:
  assumes "findSpotById spotId st = Some spot" and "status spot \<noteq> ''OCCUPIED''"
  shows "updateStatus spotId ''AVAILABLE'' None st =
           (Some (spot\<lparr>status := ''AVAILABLE''\<rparr>),
            st\<lparr>spots := findByIdAndUpdate s_id spotId (\<lambda>s. s\<lparr>status := ''AVAILABLE''\<rparr>) (spots st)\<rparr>)
         \<and> (status spot = ''AVAILABLE'' \<longrightarrow> snd (updateStatus spotId ''AVAILABLE'' None st) = st)"
proof -
  have 1: "updateStatus spotId ''AVAILABLE'' None st =
           (Some (spot\<lparr>status := ''AVAILABLE''\<rparr>),
            st\<lparr>spots := findByIdAndUpdate s_id spotId (\<lambda>s. s\<lparr>status := ''AVAILABLE''\<rparr>) (spots st)\<rparr>)"
    unfolding updateStatus_def
    using findSpotById_update[OF assms(1), of "\<lambda>s. s\<lparr>status := ''AVAILABLE''\<rparr>"]
    by (simp add: Let_def)
  have 2: "snd (updateStatus spotId ''AVAILABLE'' None st) = st" if "status spot = ''AVAILABLE''"
  proof -
    have "spot\<lparr>status := ''AVAILABLE''\<rparr> = spot" using that by simp
    then have "findByIdAndUpdate s_id spotId (\<lambda>s. s\<lparr>status := ''AVAILABLE''\<rparr>) (spots st) = spots st"
      using assms(1) unfolding findSpotById_def by (intro findByIdAndUpdate_first_fixed)
    then show ?thesis unfolding 1 by simp
  qed
  show ?thesis using 1 2 by blast
qed

theorem release_without_occupancy_check_witness:
  "updateStatus 2 ''AVAILABLE'' None opening_store =
     (Some \<lparr>s_id = 2, floor_number = 1, spot_number = 2, spot_type = ''BUS'',
             status = ''AVAILABLE'', current_vehicle_id = None\<rparr>,
      opening_store\<lparr>spots :=
        [\<lparr>s_id = 1, floor_number = 1, spot_number = 1, spot_type = ''CAR'',
          status = ''AVAILABLE'', current_vehicle_id = None\<rparr>,
         \<lparr>s_id = 2, floor_number = 1, spot_number = 2, spot_type = ''BUS'',
          status = ''AVAILABLE'', current_vehicle_id = None\<rparr>]\<rparr>)
   \<and> snd (updateStatus 1 ''AVAILABLE'' None opening_store) = opening_store"
proof -
  have s2: "findSpotById 2 opening_store =
     Some \<lparr>s_id = 2, floor_number = 1, spot_number = 2, spot_type = ''BUS'',
           status = ''MAINTENANCE'', current_vehicle_id = None\<rparr>"
    by code_simp
  have s1: "findSpotById 1 opening_store =
     Some \<lparr>s_id = 1, floor_number = 1, spot_number = 1, spot_type = ''CAR'',
           status = ''AVAILABLE'', current_vehicle_id = None\<rparr>"
    by code_simp
  have a: "updateStatus 2 ''AVAILABLE'' None opening_store =
     (Some \<lparr>s_id = 2, floor_number = 1, spot_number = 2, spot_type = ''BUS'',
             status = ''AVAILABLE'', current_vehicle_id = None\<rparr>,
      opening_store\<lparr>spots :=
        [\<lparr>s_id = 1, floor_number = 1, spot_number = 1, spot_type = ''CAR'',
          status = ''AVAILABLE'', current_vehicle_id = None\<rparr>,
         \<lparr>s_id = 2, floor_number = 1, spot_number = 2, spot_type = ''BUS'',
          status = ''AVAILABLE'', current_vehicle_id = None\<rparr>]\<rparr>)"
    using release_without_occupancy_check[OF s2] by (simp add: opening_store_def)
  have b: "snd (updateStatus 1 ''AVAILABLE'' None opening_store) = opening_store"
    using release_without_occupancy_check[OF s1, THEN conjunct2] by simp
  show ?thesis using a b by blast
qed

text \<open>
  Claim C7 as stated does not hold: the release of spot 2, which is under MAINTENANCE, is
  not rejected, and it changes the store.
\<close>

theorem release_of_maintenance_spot_succeeds:
  "findSpotById 2 opening_store =
     Some \<lparr>s_id = 2, floor_number = 1, spot_number = 2, spot_type = ''BUS'',
           status = ''MAINTENANCE'', current_vehicle_id = None\<rparr>
   \<and> fst (updateStatus 2 ''AVAILABLE'' None opening_store) =
     Some \<lparr>s_id = 2, floor_number = 1, spot_number = 2, spot_type = ''BUS'',
           status = ''AVAILABLE'', current_vehicle_id = None\<rparr>
   \<and> snd (updateStatus 2 ''AVAILABLE'' None opening_store) \<noteq> opening_store"
  by code_simp

end
